theory Spec2Isabelle
  imports Complex_Main
begin

section \<open>Data model\<close>

text \<open>
  The storefront consists of a product catalog (\<open>ProductAPI\<close>) and a shopping cart
  (\<open>Cart\<close>). Catalog fields hold the values the feed delivers: prices and ratings are
  rationals, stock and popularity are integers. A cart quantity is whatever number the
  caller passes, and the cart computes with quantities and amounts in double precision;
  both are values of the type \<open>number\<close>. Page numbers are integers, time stamps are
  integer milliseconds since the epoch, and strings are character lists.
\<close>

type_synonym time = int

text \<open>
  A JavaScript number: a finite value (zero has no sign here), an infinity, or not a
  number.
\<close>

datatype number = Fin rat | PlusInfinity | MinusInfinity | NotANumber

record product =
  pid :: string
  name :: string
  description :: string
  category :: string
  price :: rat
  rating :: rat
  stock :: int
  popularity :: int
  images :: "string list"
  specs :: "(string \<times> string) list"
  inStock :: bool
  isNew :: bool
  onSale :: bool

text \<open>The product data cached on a cart line by \<open>addItem\<close>.\<close>

record snapshot =
  s_id :: string
  s_name :: string
  s_price :: rat
  s_images :: "string list"
  s_category :: string
  s_inStock :: bool

record cart_item =
  item_id :: string
  quantity :: number
  addedAt :: time
  updatedAt :: time
  item_product :: "snapshot option"

text \<open>
  What \<open>localStorage.getItem\<close> followed by \<open>JSON.parse\<close> can deliver for the cart key:
  the empty string, other text that does not parse, a parsed value whose \<open>items\<close> field
  is not an array, or a record with an item array and a \<open>savedAt\<close> date (\<open>None\<close> when the
  date is missing or invalid). An absent key is \<open>None\<close> in the \<open>storage\<close> field of the
  cart state.
\<close>

datatype stored = EmptyText | Unparsable | Malformed | CartData "cart_item list" "time option"

text \<open>
  The cart object together with the storage slot it persists to. \<open>setItem_ok\<close> tells
  whether \<open>localStorage.setItem\<close> succeeds; when it throws, \<open>saveToStorage\<close> catches the
  exception and the slot keeps its old content.
\<close>

record cart =
  items :: "cart_item list"
  storage :: "stored option"
  setItem_ok :: bool

text \<open>
  The source throws plain \<open>Error\<close> objects that differ by message. Each message is one
  constructor: \<open>InvalidInput\<close> is "Invalid product ID or quantity", \<open>ProductNotFound\<close> is
  "Product not found", \<open>OutOfStock\<close> is "Product is out of stock", \<open>StockExceeded\<close> is
  "Only n items available in stock", \<open>QuantityLimit\<close> is "Maximum quantity per item is 10",
  \<open>ItemNotFound\<close> is "Item not found in cart" and \<open>InvalidCartData\<close> is "Invalid cart data".
\<close>

datatype cart_error =
  InvalidInput | ProductNotFound | OutOfStock | StockExceeded | QuantityLimit
  | ItemNotFound | InvalidCartData

section \<open>Double precision arithmetic\<close>

text \<open>The number of binary digits of a positive integer.\<close>

function bitLength :: "int \<Rightarrow> int" where
  "bitLength k = (if k \<le> 0 then 0 else 1 + bitLength (k div 2))"
  by pat_completeness auto
termination
  by (relation "measure nat") auto

declare bitLength.simps [simp del]

text \<open>For a positive \<open>x\<close>, the exponent \<open>e\<close> with \<open>2 ^ e \<le> x < 2 ^ (e + 1)\<close>.\<close>

definition exponent :: "rat \<Rightarrow> int" where
  "exponent x =
     (if 1 \<le> x then bitLength \<lfloor>x\<rfloor> - 1 else - bitLength (\<lceil>1 / x\<rceil> - 1))"

definition roundHalfEven :: "rat \<Rightarrow> int" where
  "roundHalfEven y =
     (let f = \<lfloor>y\<rfloor>; d = y - of_int f
      in if d < 1 / 2 then f else if 1 / 2 < d then f + 1 else if even f then f else f + 1)"

text \<open>
  The double nearest to a rational, ties to the even significand: 53 significant bits,
  exponents from -1022 (below that the spacing stays \<open>2 ^ -1074\<close>) to 1023, and an
  infinity when the rounded value reaches \<open>2 ^ 1024\<close>.
\<close>

definition toDouble :: "rat \<Rightarrow> number" where
  "toDouble x =
     (if x = 0 then Fin 0
      else
        let e = max (exponent \<bar>x\<bar>) (- 1022);
            q = 2 powi (e - 52);
            m = roundHalfEven (x / q)
        in if 1023 < e \<or> (e = 1023 \<and> \<bar>m\<bar> = 9007199254740992)
           then (if 0 < x then PlusInfinity else MinusInfinity)
           else Fin (of_int m * q))"

fun signOf :: "number \<Rightarrow> int" where
  "signOf (Fin a) = (if 0 < a then 1 else if a < 0 then - 1 else 0)"
| "signOf PlusInfinity = 1"
| "signOf MinusInfinity = - 1"
| "signOf NotANumber = 0"

text \<open>The operators \<open>+\<close>, unary \<open>-\<close>, \<open>-\<close>, \<open>*\<close> and \<open>/\<close> on numbers.\<close>

fun fadd :: "number \<Rightarrow> number \<Rightarrow> number" where
  "fadd (Fin a) (Fin b) = toDouble (a + b)"
| "fadd NotANumber y = NotANumber"
| "fadd x NotANumber = NotANumber"
| "fadd PlusInfinity MinusInfinity = NotANumber"
| "fadd MinusInfinity PlusInfinity = NotANumber"
| "fadd PlusInfinity y = PlusInfinity"
| "fadd MinusInfinity y = MinusInfinity"
| "fadd x PlusInfinity = PlusInfinity"
| "fadd x MinusInfinity = MinusInfinity"

fun fneg :: "number \<Rightarrow> number" where
  "fneg (Fin a) = Fin (- a)"
| "fneg PlusInfinity = MinusInfinity"
| "fneg MinusInfinity = PlusInfinity"
| "fneg NotANumber = NotANumber"

definition fsub :: "number \<Rightarrow> number \<Rightarrow> number" where
  "fsub x y = fadd x (fneg y)"

fun fmul :: "number \<Rightarrow> number \<Rightarrow> number" where
  "fmul (Fin a) (Fin b) = toDouble (a * b)"
| "fmul NotANumber y = NotANumber"
| "fmul x NotANumber = NotANumber"
| "fmul x y =
     (if signOf x * signOf y = 0 then NotANumber
      else if 0 < signOf x * signOf y then PlusInfinity else MinusInfinity)"

text \<open>Division; the zero of the model is the positive zero.\<close>

fun fdiv :: "number \<Rightarrow> number \<Rightarrow> number" where
  "fdiv (Fin a) (Fin b) =
     (if b = 0 then (if a = 0 then NotANumber else if 0 < a then PlusInfinity else MinusInfinity)
      else toDouble (a / b))"
| "fdiv NotANumber y = NotANumber"
| "fdiv x NotANumber = NotANumber"
| "fdiv (Fin a) y = Fin 0"
| "fdiv x (Fin b) =
     (if 0 < signOf x * (if b < 0 then - 1 else 1) then PlusInfinity else MinusInfinity)"
| "fdiv x y = NotANumber"

text \<open>The comparisons \<open><\<close>, \<open>>\<close>, \<open>===\<close> and \<open>>=\<close>; each is false when an operand is not a number.\<close>

fun flt :: "number \<Rightarrow> number \<Rightarrow> bool" where
  "flt (Fin a) (Fin b) = (a < b)"
| "flt NotANumber y = False"
| "flt x NotANumber = False"
| "flt x MinusInfinity = False"
| "flt PlusInfinity y = False"
| "flt x y = True"

definition fgt :: "number \<Rightarrow> number \<Rightarrow> bool" where
  "fgt x y = flt y x"

fun feq :: "number \<Rightarrow> number \<Rightarrow> bool" where
  "feq NotANumber y = False"
| "feq x NotANumber = False"
| "feq x y = (x = y)"

definition fge :: "number \<Rightarrow> number \<Rightarrow> bool" where
  "fge x y = (fgt x y \<or> feq x y)"

text \<open>\<open>Math.max\<close> of two numbers.\<close>

fun fmax :: "number \<Rightarrow> number \<Rightarrow> number" where
  "fmax NotANumber y = NotANumber"
| "fmax x NotANumber = NotANumber"
| "fmax x y = (if flt x y then y else x)"

text \<open>\<open>Math.round\<close> rounds to the nearest integer, halves towards plus infinity.\<close>

fun Math_round :: "number \<Rightarrow> number" where
  "Math_round (Fin x) = Fin (of_int \<lfloor>x + 1 / 2\<rfloor>)"
| "Math_round x = x"

text \<open>An integer field of the catalog as a number.\<close>

definition ofInt :: "int \<Rightarrow> number" where
  "ofInt k = Fin (of_int k)"

section \<open>Configuration\<close>

definition TAX_RATE :: number where
  "TAX_RATE = toDouble (8 / 100)"

definition SHIPPING_THRESHOLD :: number where
  "SHIPPING_THRESHOLD = Fin 50"

definition SHIPPING_COST :: number where
  "SHIPPING_COST = toDouble (999 / 100)"

definition MAX_QUANTITY :: number where
  "MAX_QUANTITY = Fin 10"

definition ITEMS_PER_PAGE :: int where
  "ITEMS_PER_PAGE = 12"

section \<open>Catalog lookups\<close>

definition getProductById :: "product list \<Rightarrow> string \<Rightarrow> product option" where
  "getProductById products productId = find (\<lambda>p. pid p = productId) products"

section \<open>Cart operations\<close>

text \<open>\<open>Array.prototype.findIndex\<close>; \<open>None\<close> stands for the index -1.\<close>

fun findIndex :: "('a \<Rightarrow> bool) \<Rightarrow> 'a list \<Rightarrow> nat option" where
  "findIndex P [] = None"
| "findIndex P (x # xs) =
     (if P x then Some 0 else map_option Suc (findIndex P xs))"

definition saveToStorage :: "time \<Rightarrow> cart \<Rightarrow> cart" where
  "saveToStorage now s =
     (if setItem_ok s then s\<lparr>storage := Some (CartData (items s) (Some now))\<rparr> else s)"

definition getItemQuantity :: "cart \<Rightarrow> string \<Rightarrow> number" where
  "getItemQuantity s productId =
     (case find (\<lambda>item. item_id item = productId) (items s) of
        Some item \<Rightarrow> quantity item
      | None \<Rightarrow> Fin 0)"

definition hasItem :: "cart \<Rightarrow> string \<Rightarrow> bool" where
  "hasItem s productId = (\<exists>item \<in> set (items s). item_id item = productId)"

definition addItem ::
  "product list \<Rightarrow> time \<Rightarrow> string \<Rightarrow> number \<Rightarrow> cart \<Rightarrow> (cart_error + bool) \<times> cart" where
  "addItem products now productId q s =
     (if productId = [] \<or> flt q (Fin 1) then (Inl InvalidInput, s)
      else case getProductById products productId of
        None \<Rightarrow> (Inl ProductNotFound, s)
      | Some p \<Rightarrow>
          if \<not> inStock p then (Inl OutOfStock, s)
          else
            let currentQuantity = getItemQuantity s productId;
                newQuantity = fadd currentQuantity q
            in if fgt newQuantity (ofInt (stock p)) then (Inl StockExceeded, s)
               else if fgt newQuantity MAX_QUANTITY then (Inl QuantityLimit, s)
               else
                 (Inr True,
                  saveToStorage now
                    (case findIndex (\<lambda>item. item_id item = productId) (items s) of
                       Some i \<Rightarrow>
                         s\<lparr>items := (items s)
                              [i := (items s ! i)\<lparr>quantity := newQuantity, updatedAt := now\<rparr>]\<rparr>
                     | None \<Rightarrow>
                         s\<lparr>items := items s @
                              [\<lparr>item_id = pid p, quantity = q, addedAt = now, updatedAt = now,
                                item_product = Some
                                  \<lparr>s_id = pid p, s_name = name p, s_price = price p,
                                   s_images = images p, s_category = category p,
                                   s_inStock = inStock p\<rparr>\<rparr>]\<rparr>)))"

text \<open>The quantity is \<open>None\<close> when the argument is omitted or \<open>null\<close>.\<close>

definition removeItem :: "time \<Rightarrow> string \<Rightarrow> number option \<Rightarrow> cart \<Rightarrow> bool \<times> cart" where
  "removeItem now productId q s =
     (case findIndex (\<lambda>item. item_id item = productId) (items s) of
        None \<Rightarrow> (False, s)
      | Some i \<Rightarrow>
          let removed = saveToStorage now (s\<lparr>items := take i (items s) @ drop (Suc i) (items s)\<rparr>)
          in case q of
               None \<Rightarrow> (True, removed)
             | Some n \<Rightarrow>
                 if fge n (quantity (items s ! i)) then (True, removed)
                 else (True,
                       saveToStorage now
                         (s\<lparr>items := (items s)
                              [i := (items s ! i)
                                 \<lparr>quantity := fsub (quantity (items s ! i)) n,
                                  updatedAt := now\<rparr>]\<rparr>)))"

definition updateItemQuantity ::
  "product list \<Rightarrow> time \<Rightarrow> string \<Rightarrow> number \<Rightarrow> cart \<Rightarrow> (cart_error + bool) \<times> cart" where
  "updateItemQuantity products now productId q s =
     (if productId = [] \<or> flt q (Fin 0) then (Inl InvalidInput, s)
      else if fgt q MAX_QUANTITY then (Inl QuantityLimit, s)
      else case findIndex (\<lambda>item. item_id item = productId) (items s) of
        None \<Rightarrow> (Inl ItemNotFound, s)
      | Some i \<Rightarrow>
          if (case getProductById products productId of
                None \<Rightarrow> False | Some p \<Rightarrow> fgt q (ofInt (stock p)))
          then (Inl StockExceeded, s)
          else if feq q (Fin 0) then
            (case removeItem now productId None s of (b, s') \<Rightarrow> (Inr b, s'))
          else
            (Inr True,
             saveToStorage now
               (s\<lparr>items := (items s)[i := (items s ! i)\<lparr>quantity := q, updatedAt := now\<rparr>]\<rparr>)))"

text \<open>
  A line of \<open>getCartItems\<close>: the cart line joined with the product it is shown with,
  either the live catalog product or the snapshot cached on the line.
\<close>

datatype product_view = Live product | Cached snapshot

fun view_price :: "product_view \<Rightarrow> rat" where
  "view_price (Live p) = price p"
| "view_price (Cached c) = s_price c"

fun view_inStock :: "product_view \<Rightarrow> bool" where
  "view_inStock (Live p) = inStock p"
| "view_inStock (Cached c) = s_inStock c"

record cart_entry =
  e_item :: cart_item
  e_product :: product_view
  e_subtotal :: number
  e_inStock :: bool

fun joinItems :: "product list \<Rightarrow> cart_item list \<Rightarrow> cart_entry list" where
  "joinItems products [] = []"
| "joinItems products (cartItem # rest) =
     (case (case getProductById products (item_id cartItem) of
              Some p \<Rightarrow> Some (Live p)
            | None \<Rightarrow> map_option Cached (item_product cartItem)) of
        Some v \<Rightarrow>
          \<lparr>e_item = cartItem, e_product = v,
           e_subtotal = fmul (quantity cartItem) (Fin (view_price v)),
           e_inStock = view_inStock v\<rparr> # joinItems products rest
      | None \<Rightarrow> joinItems products rest)"

definition getCartItems :: "product list \<Rightarrow> cart \<Rightarrow> cart_entry list" where
  "getCartItems products s = joinItems products (items s)"

record cart_summary =
  subtotal :: number
  taxAmount :: number
  shippingCost :: number
  total :: number
  itemCount :: number
  itemLines :: nat
  freeShippingEligible :: bool
  freeShippingRemaining :: number

definition getCartSummary :: "product list \<Rightarrow> cart \<Rightarrow> cart_summary" where
  "getCartSummary products s =
     (let its = getCartItems products s;
          sub = foldl (\<lambda>sum item. fadd sum (e_subtotal item)) (Fin 0) its;
          cnt = foldl (\<lambda>sum item. fadd sum (quantity (e_item item))) (Fin 0) its;
          ship = (if fge sub SHIPPING_THRESHOLD then Fin 0 else SHIPPING_COST);
          tax = fmul sub TAX_RATE;
          tot = fadd (fadd sub ship) tax
      in \<lparr>subtotal = fdiv (Math_round (fmul sub (Fin 100))) (Fin 100),
          taxAmount = fdiv (Math_round (fmul tax (Fin 100))) (Fin 100),
          shippingCost = fdiv (Math_round (fmul ship (Fin 100))) (Fin 100),
          total = fdiv (Math_round (fmul tot (Fin 100))) (Fin 100),
          itemCount = cnt,
          itemLines = length its,
          freeShippingEligible = fge sub SHIPPING_THRESHOLD,
          freeShippingRemaining = fmax (Fin 0) (fsub SHIPPING_THRESHOLD sub)\<rparr>)"

record invalid_item =
  inv_id :: string
  inv_name :: string
  inv_reason :: string

record out_of_stock_item =
  oos_id :: string
  oos_name :: string
  currentQuantity :: number

record updated_item =
  upd_id :: string
  upd_name :: string
  oldQuantity :: number
  newQuantity :: int

record validation =
  isValid :: bool
  invalidItems :: "invalid_item list"
  outOfStockItems :: "out_of_stock_item list"
  updatedItems :: "updated_item list"

text \<open>
  The \<open>for\<close> loop of \<open>validateCart\<close>: the report and the list of kept lines are the
  two accumulators the source pushes to.
\<close>

fun validateLoop ::
  "product list \<Rightarrow> time \<Rightarrow> cart_item list \<Rightarrow> validation \<Rightarrow> cart_item list
   \<Rightarrow> validation \<times> cart_item list" where
  "validateLoop products now [] v validItems = (v, validItems)"
| "validateLoop products now (cartItem # rest) v validItems =
     (case getProductById products (item_id cartItem) of
        None \<Rightarrow>
          validateLoop products now rest
            (v\<lparr>invalidItems := invalidItems v @
                 [\<lparr>inv_id = item_id cartItem,
                   inv_name = (case item_product cartItem of
                                 None \<Rightarrow> ''Unknown Product''
                               | Some c \<Rightarrow> if s_name c = [] then ''Unknown Product''
                                           else s_name c),
                   inv_reason = ''Product no longer available''\<rparr>]\<rparr>)
            validItems
      | Some p \<Rightarrow>
          if \<not> inStock p then
            validateLoop products now rest
              (v\<lparr>outOfStockItems := outOfStockItems v @
                   [\<lparr>oos_id = item_id cartItem, oos_name = name p,
                     currentQuantity = quantity cartItem\<rparr>]\<rparr>)
              validItems
          else if fgt (quantity cartItem) (ofInt (stock p)) then
            validateLoop products now rest
              (v\<lparr>updatedItems := updatedItems v @
                   [\<lparr>upd_id = item_id cartItem, upd_name = name p,
                     oldQuantity = quantity cartItem, newQuantity = stock p\<rparr>]\<rparr>)
              (validItems @ [cartItem\<lparr>quantity := ofInt (stock p), updatedAt := now\<rparr>])
          else validateLoop products now rest v (validItems @ [cartItem]))"

definition validateCart :: "product list \<Rightarrow> time \<Rightarrow> cart \<Rightarrow> validation \<times> cart" where
  "validateCart products now s =
     (case validateLoop products now (items s)
             \<lparr>isValid = True, invalidItems = [], outOfStockItems = [], updatedItems = []\<rparr> [] of
        (v, validItems) \<Rightarrow>
          ((if invalidItems v \<noteq> [] \<or> outOfStockItems v \<noteq> [] then v\<lparr>isValid := False\<rparr> else v),
           saveToStorage now (s\<lparr>items := validItems\<rparr>)))"

text \<open>The \<open>forEach\<close> of \<open>mergeCart\<close> over the incoming lines, acting on the cart's lines.\<close>

fun mergeLoop :: "time \<Rightarrow> cart_item list \<Rightarrow> cart_item list \<Rightarrow> cart_item list" where
  "mergeLoop now [] its = its"
| "mergeLoop now (newItem # rest) its =
     mergeLoop now rest
       (case findIndex (\<lambda>item. item_id item = item_id newItem) its of
          Some i \<Rightarrow>
            its[i := (its ! i)\<lparr>quantity := fmax (quantity (its ! i)) (quantity newItem),
                               updatedAt := now\<rparr>]
        | None \<Rightarrow> its @ [newItem\<lparr>addedAt := now, updatedAt := now\<rparr>])"

text \<open>The argument is \<open>None\<close> when \<open>cartData\<close> is not an array.\<close>

definition mergeCart :: "time \<Rightarrow> cart_item list option \<Rightarrow> cart \<Rightarrow> cart" where
  "mergeCart now cartData s =
     (case cartData of
        None \<Rightarrow> s
      | Some newItems \<Rightarrow> saveToStorage now (s\<lparr>items := mergeLoop now newItems (items s)\<rparr>))"

text \<open>
  The object passed to \<open>importCart\<close> and returned by \<open>exportCart\<close>. \<open>data_items\<close> is
  \<open>None\<close> when the \<open>items\<close> field is absent or not an array.
\<close>

record cart_data =
  data_items :: "cart_item list option"
  exportedAt :: "time option"
  version :: "string option"

definition exportCart :: "time \<Rightarrow> cart \<Rightarrow> cart_data" where
  "exportCart now s =
     \<lparr>data_items = Some (items s), exportedAt = Some now, version = Some ''1.0''\<rparr>"

text \<open>
  The argument is \<open>None\<close> when \<open>cartData\<close> is \<open>null\<close> or \<open>undefined\<close>. The exception
  thrown for a wrong shape is caught inside \<open>importCart\<close>, which then returns \<open>false\<close>.
\<close>

definition importCart :: "time \<Rightarrow> cart_data option \<Rightarrow> cart \<Rightarrow> (cart_error + bool) \<times> cart" where
  "importCart now cartData s =
     (case (case cartData of None \<Rightarrow> None | Some d \<Rightarrow> data_items d) of
        None \<Rightarrow> (Inr False, s)
      | Some its \<Rightarrow> (Inr True, saveToStorage now (s\<lparr>items := its\<rparr>)))"

text \<open>
  The test \<open>!stored\<close> holds for an absent key and for the empty string; both empty the
  cart and return before anything is written.
\<close>

definition loadFromStorage :: "time \<Rightarrow> cart \<Rightarrow> cart" where
  "loadFromStorage now s =
     (case storage s of
        None \<Rightarrow> s\<lparr>items := []\<rparr>
      | Some EmptyText \<Rightarrow> s\<lparr>items := []\<rparr>
      | Some Unparsable \<Rightarrow> saveToStorage now (s\<lparr>items := []\<rparr>)
      | Some Malformed \<Rightarrow> saveToStorage now (s\<lparr>items := []\<rparr>)
      | Some (CartData its savedAt) \<Rightarrow>
          (case savedAt of
             None \<Rightarrow> s\<lparr>items := its\<rparr>
           | Some savedDate \<Rightarrow>
               let daysDiff = (of_int (now - savedDate) :: rat) / (1000 * 60 * 60 * 24)
               in if daysDiff > 30 then saveToStorage now (s\<lparr>items := []\<rparr>)
                  else s\<lparr>items := its\<rparr>))"

section \<open>Query engine\<close>















text \<open>
  \<open>Array.prototype.slice\<close> on integer arguments: a negative index counts from the end
  of the array, and both indices are clamped to the array.
\<close>

definition slice :: "'a list \<Rightarrow> int \<Rightarrow> int \<Rightarrow> 'a list" where
  "slice xs start fin =
     (let len = int (length xs);
          k = (if start < 0 then max (len + start) 0 else min start len);
          final = (if fin < 0 then max (len + fin) 0 else min fin len)
      in take (nat (final - k)) (drop (nat k) xs))"

text \<open>A number that is an integer, an infinity or not a number.\<close>

datatype js_number = Finite int | Infinity | NaN

text \<open>\<open>Math.ceil(len / perPage)\<close> for an array length and an integer \<open>perPage\<close>.\<close>

definition ceil_div :: "nat \<Rightarrow> int \<Rightarrow> js_number" where
  "ceil_div len perPage =
     (if perPage = 0 then (if len = 0 then NaN else Infinity)
      else Finite \<lceil>(of_nat len :: rat) / of_int perPage\<rceil>)"

record 'a page_result =
  page_items :: "'a list"
  page :: int
  perPage :: int
  total :: nat
  totalPages :: js_number
  hasNext :: bool
  hasPrev :: bool

text \<open>An omitted argument is \<open>None\<close> and takes its default value.\<close>

definition paginateProducts :: "'a list \<Rightarrow> int option \<Rightarrow> int option \<Rightarrow> 'a page_result" where
  "paginateProducts products page_arg perPage_arg =
     (let pg = (case page_arg of None \<Rightarrow> 1 | Some v \<Rightarrow> v);
          per = (case perPage_arg of None \<Rightarrow> ITEMS_PER_PAGE | Some v \<Rightarrow> v);
          startIndex = (pg - 1) * per;
          endIndex = startIndex + per;
          its = slice products startIndex endIndex
      in \<lparr>page_items = its, page = pg, perPage = per, total = length products,
          totalPages = ceil_div (length products) per,
          hasNext = (endIndex < int (length products)),
          hasPrev = (pg > 1)\<rparr>)"

section \<open>Notions of the specification\<close>



text \<open>
  The reconciliation rules in the words of the specification: a line's product is
  missing from the catalog, is in the catalog but out of stock, or is available; an
  available line whose quantity exceeds the live stock is clamped to that stock.
\<close>

definition productMissing :: "product list \<Rightarrow> cart_item \<Rightarrow> bool" where
  "productMissing products it = (getProductById products (item_id it) = None)"

definition productOutOfStock :: "product list \<Rightarrow> cart_item \<Rightarrow> bool" where
  "productOutOfStock products it =
     (case getProductById products (item_id it) of None \<Rightarrow> False | Some p \<Rightarrow> \<not> inStock p)"

definition productAvailable :: "product list \<Rightarrow> cart_item \<Rightarrow> bool" where
  "productAvailable products it =
     (case getProductById products (item_id it) of None \<Rightarrow> False | Some p \<Rightarrow> inStock p)"

definition liveStock :: "product list \<Rightarrow> cart_item \<Rightarrow> int" where
  "liveStock products it =
     (case getProductById products (item_id it) of None \<Rightarrow> 0 | Some p \<Rightarrow> stock p)"

definition exceedsStock :: "product list \<Rightarrow> cart_item \<Rightarrow> bool" where
  "exceedsStock products it =
     (productAvailable products it \<and> fgt (quantity it) (ofInt (liveStock products it)))"

definition clampToStock :: "product list \<Rightarrow> time \<Rightarrow> cart_item \<Rightarrow> cart_item" where
  "clampToStock products now it =
     (if fgt (quantity it) (ofInt (liveStock products it))
      then it\<lparr>quantity := ofInt (liveStock products it), updatedAt := now\<rparr> else it)"

text \<open>
  The summary in the words of the specification. Rounding to two decimals is
  \<open>Math.round(x * 100) / 100\<close>. A line resolves to a product through the live catalog or,
  failing that, through its snapshot; a line with neither is an orphan. The amount of a
  line is its quantity times the price of that product, and the aggregate is the sum of
  the amounts in cart order, each operation in double precision.
\<close>

definition round2 :: "number \<Rightarrow> number" where
  "round2 x = fdiv (Math_round (fmul x (Fin 100))) (Fin 100)"

definition linePrice :: "product list \<Rightarrow> cart_item \<Rightarrow> rat option" where
  "linePrice products it =
     (case getProductById products (item_id it) of
        Some p \<Rightarrow> Some (price p)
      | None \<Rightarrow> map_option s_price (item_product it))"

definition orphan :: "product list \<Rightarrow> cart_item \<Rightarrow> bool" where
  "orphan products it =
     (getProductById products (item_id it) = None \<and> item_product it = None)"

definition lineAmount :: "product list \<Rightarrow> cart_item \<Rightarrow> number option" where
  "lineAmount products it =
     map_option (\<lambda>pr. fmul (quantity it) (Fin pr)) (linePrice products it)"

definition aggregate :: "product list \<Rightarrow> cart_item list \<Rightarrow> number" where
  "aggregate products its = foldl fadd (Fin 0) (List.map_filter (lineAmount products) its)"

text \<open>The value of the double nearest to a decimal, for prices written in decimals.\<close>

definition nearestDouble :: "rat \<Rightarrow> rat" where
  "nearestDouble x = (case toDouble x of Fin y \<Rightarrow> y | _ \<Rightarrow> 0)"


text \<open>
  The cart invariant of the specification: every line's quantity is an integer, at least
  1, at most \<open>MAX_QUANTITY\<close> and at most the stock of the live product when the product is
  in the catalog; and no two lines have the same product id.
\<close>

definition wholeNumber :: "number \<Rightarrow> bool" where
  "wholeNumber q = (case q of Fin x \<Rightarrow> x = of_int \<lfloor>x\<rfloor> | _ \<Rightarrow> False)"

definition line_ok :: "product list \<Rightarrow> cart_item \<Rightarrow> bool" where
  "line_ok products it =
     (wholeNumber (quantity it) \<and> fge (quantity it) (Fin 1) \<and>
      fge MAX_QUANTITY (quantity it) \<and>
      (case getProductById products (item_id it) of
         None \<Rightarrow> True
       | Some p \<Rightarrow> fge (ofInt (stock p)) (quantity it)))"

definition cart_inv :: "product list \<Rightarrow> cart_item list \<Rightarrow> bool" where
  "cart_inv products its = (distinct (map item_id its) \<and> list_all (line_ok products) its)"

text \<open>
  A line whose product is available and whose quantity is at most its stock, or is not a
  number at all.
\<close>

definition withinStock :: "product list \<Rightarrow> cart_item \<Rightarrow> bool" where
  "withinStock products it =
     (productAvailable products it \<and>
      (quantity it = NotANumber \<or> fge (ofInt (liveStock products it)) (quantity it)))"

section \<open>Example data\<close>

definition phone :: product where
  "phone = \<lparr>pid = ''p1'', name = ''Pixel Phone'', description = ''A phone'', category = ''phones'',
     price = 99 / 2, rating = 4, stock = 5, popularity = 90, images = [],
     specs = [(''color'', ''Black Matte'')], inStock = True, isNew = True, onSale = False\<rparr>"

definition hub :: product where
  "hub = \<lparr>pid = ''p2'', name = ''Nest Hub'', description = ''Smart display'', category = ''home'',
     price = 50, rating = 9 / 2, stock = 20, popularity = 50, images = [], specs = [],
     inStock = True, isNew = False, onSale = False\<rparr>"

definition soldOut :: product where
  "soldOut = \<lparr>pid = ''p3'', name = ''Old Case'', description = ''Case'', category = ''accessories'',
     price = 10, rating = 3, stock = 0, popularity = 10, images = [], specs = [],
     inStock = False, isNew = False, onSale = False\<rparr>"


text \<open>A product with a price written in decimals, and a catalog of three of them.\<close>

definition priced :: "string \<Rightarrow> rat \<Rightarrow> product" where
  "priced i x = \<lparr>pid = i, name = ''Item'', description = ''Item'', category = ''accessories'',
     price = nearestDouble x, rating = 4, stock = 9, popularity = 50, images = [], specs = [],
     inStock = True, isNew = False, onSale = False\<rparr>"

definition centCatalog :: "product list" where
  "centCatalog = [priced ''a'' (402 / 100), priced ''b'' (2808 / 100), priced ''c'' (179 / 10)]"

text \<open>A cart line with a quantity and no snapshot, and a cart over working storage.\<close>

definition line :: "string \<Rightarrow> rat \<Rightarrow> cart_item" where
  "line i n = \<lparr>item_id = i, quantity = Fin n, addedAt = 0, updatedAt = 0, item_product = None\<rparr>"

definition cartOf :: "cart_item list \<Rightarrow> cart" where
  "cartOf its = \<lparr>items = its, storage = None, setItem_ok = True\<rparr>"




definition staleCart :: cart where
  "staleCart = cartOf [line ''p1'' 9, line ''p9'' 1, line ''p3'' 2]"

definition expiredStore :: cart where
  "expiredStore = \<lparr>items = [], storage = Some (CartData [line ''p1'' 4] (Some 0)), setItem_ok = True\<rparr>"

definition corruptStore :: cart where
  "corruptStore = \<lparr>items = [], storage = Some Unparsable, setItem_ok = True\<rparr>"

definition emptyTextStore :: cart where
  "emptyTextStore = \<lparr>items = [line ''p1'' 4], storage = Some EmptyText, setItem_ok = True\<rparr>"

definition orphanCart :: cart where
  "orphanCart = cartOf [line ''p1'' 2, line ''p9'' 3]"

definition duplicateStore :: cart where
  "duplicateStore =
     \<lparr>items = [], storage = Some (CartData [line ''p1'' 1, line ''p1'' 1] (Some 0)),
      setItem_ok = True\<rparr>"

text \<open>A line of a product that is not in the catalog, with the snapshot taken when it was added.\<close>

definition cachedLine :: cart_item where
  "cachedLine =
     \<lparr>item_id = ''p7'', quantity = Fin 2, addedAt = 0, updatedAt = 0,
      item_product = Some \<lparr>s_id = ''p7'', s_name = ''Cable'', s_price = 5, s_images = [],
        s_category = ''accessories'', s_inStock = True\<rparr>\<rparr>"

section \<open>Properties of the arithmetic\<close>

lemma flt_Fin: "flt (Fin a) (Fin b) = (a < b)"
  by simp

lemma fgt_Fin: "fgt (Fin a) (Fin b) = (b < a)"
  by (simp add: fgt_def)

lemma fge_Fin: "fge (Fin a) (Fin b) = (b \<le> a)"
  by (auto simp: fge_def fgt_def)

lemma feq_Fin: "feq (Fin a) (Fin b) = (a = b)"
  by simp

lemma fmax_Fin: "fmax (Fin a) (Fin b) = Fin (max a b)"
  by (simp add: max_def)

lemma bitLength_pos: "0 < k \<Longrightarrow> 1 \<le> bitLength k"
proof -
  assume "0 < k"
  then have "bitLength k = 1 + bitLength (k div 2)"
    by (subst bitLength.simps) simp
  moreover have "0 \<le> bitLength j" for j
    by (induction j rule: bitLength.induct) (subst bitLength.simps, simp)
  ultimately show ?thesis
    by (simp add: add_increasing2)
qed

lemma bitLength_bounds:
  "0 < k \<Longrightarrow> 2 ^ nat (bitLength k - 1) \<le> k \<and> k < 2 ^ nat (bitLength k)"
proof (induction k rule: bitLength.induct)
  case (1 k)
  have unfold: "bitLength k = 1 + bitLength (k div 2)"
    using "1.prems" by (subst bitLength.simps) simp
  show ?case
  proof (cases "k = 1")
    case True
    have "bitLength (0::int) = 0"
      by (subst bitLength.simps) simp
    with True unfold show ?thesis
      by simp
  next
    case False
    with "1.prems" have half: "0 < k div 2"
      by simp
    from "1.prems" have "\<not> k \<le> 0" by simp
    from "1.IH" [OF this half] have
      lo: "2 ^ nat (bitLength (k div 2) - 1) \<le> k div 2" and
      hi: "k div 2 < 2 ^ nat (bitLength (k div 2))"
      by simp_all
    from bitLength_pos [OF half] have
      n: "nat (bitLength k - 1) = Suc (nat (bitLength (k div 2) - 1))"
         "nat (bitLength k) = Suc (nat (bitLength (k div 2)))"
      unfolding unfold by simp_all
    have "2 * (k div 2) \<le> k" "k < 2 * (k div 2) + 2"
      by simp_all
    with lo hi show ?thesis
      unfolding n by simp
  qed
qed

lemma exponent_ge1:
  assumes "1 \<le> x"
  shows "0 \<le> exponent x \<and> 2 powi (exponent x) \<le> x \<and> \<lfloor>x\<rfloor> < 2 ^ nat (exponent x + 1)"
proof -
  from assms have k: "0 < \<lfloor>x\<rfloor>"
    by simp
  from assms have e: "exponent x = bitLength \<lfloor>x\<rfloor> - 1"
    by (simp add: exponent_def)
  from bitLength_pos [OF k] have nn: "0 \<le> exponent x"
    unfolding e by simp
  from bitLength_bounds [OF k] have
    lo: "2 ^ nat (exponent x) \<le> \<lfloor>x\<rfloor>" and hi: "\<lfloor>x\<rfloor> < 2 ^ nat (exponent x + 1)"
    unfolding e by simp_all
  from lo have "(of_int (2 ^ nat (exponent x)) :: rat) \<le> of_int \<lfloor>x\<rfloor>"
    by (simp only: of_int_le_iff)
  also have "\<dots> \<le> x"
    by (rule of_int_floor_le)
  finally have "(2 :: rat) ^ nat (exponent x) \<le> x"
    by simp
  then have "2 powi (exponent x) \<le> x"
    using nn by (simp add: power_int_nonneg_exp)
  with nn hi show ?thesis
    by simp
qed

lemma roundHalfEven_of_int: "roundHalfEven (of_int m) = m"
  by (simp add: roundHalfEven_def)

lemma roundHalfEven_ge_floor: "\<lfloor>y\<rfloor> \<le> roundHalfEven y"
  by (simp add: roundHalfEven_def Let_def)

lemma toDouble_of_int:
  assumes "0 \<le> n" and "n < 2 ^ 53"
  shows "toDouble (of_int n) = Fin (of_int n)"
proof (cases "n = 0")
  case True
  then show ?thesis
    by (simp add: toDouble_def)
next
  case False
  with assms(1) have x1: "(1 :: rat) \<le> of_int n"
    by simp
  let ?x = "of_int n :: rat"
  let ?e = "exponent ?x"
  from exponent_ge1 [OF x1] have nn: "0 \<le> ?e" and lo: "2 powi ?e \<le> ?x"
    by simp_all
  have e52: "?e \<le> 52"
  proof (rule ccontr)
    assume "\<not> ?e \<le> 52"
    then have "53 \<le> ?e" by simp
    then have "(2 :: rat) powi 53 \<le> 2 powi ?e"
      by (intro power_int_increasing) simp_all
    with lo have "(2 :: rat) ^ 53 \<le> of_int n"
      by simp
    then have "(of_int (2 ^ 53) :: rat) \<le> of_int n"
      by simp
    then have "2 ^ 53 \<le> n"
      by (simp only: of_int_le_iff)
    with assms(2) show False
      by simp
  qed
  let ?k = "nat (52 - ?e)"
  have q: "(2 :: rat) powi (?e - 52) = 1 / 2 ^ ?k"
  proof -
    have "(2 :: rat) powi (?e - 52) = 2 powi (- (52 - ?e))"
      by simp
    also have "\<dots> = inverse (2 powi (52 - ?e))"
      by (rule power_int_minus)
    also have "\<dots> = inverse (2 ^ ?k)"
      using e52 by (simp add: power_int_nonneg_exp)
    finally show ?thesis
      by (simp add: divide_inverse)
  qed
  have d: "?x / (1 / 2 ^ ?k) = of_int (n * 2 ^ ?k)"
    by simp
  have prod: "(of_int (n * 2 ^ ?k) :: rat) * (1 / 2 ^ ?k) = of_int n"
    by simp
  from x1 have ab: "\<bar>?x\<bar> = ?x" "?x \<noteq> 0"
    by simp_all
  from nn have mx: "max ?e (- 1022) = ?e"
    by simp
  from e52 have no: "\<not> 1023 < ?e" "?e \<noteq> 1023"
    by simp_all
  show ?thesis
    unfolding toDouble_def Let_def ab mx q d roundHalfEven_of_int prod
    using ab(2) no by simp
qed

lemma toDouble_lower:
  assumes "1 \<le> x"
  shows "toDouble x = PlusInfinity \<or> (\<exists>r. toDouble x = Fin r \<and> 2 powi (exponent x) \<le> r)"
proof -
  let ?e = "exponent x"
  let ?q = "(2 :: rat) powi (?e - 52)"
  let ?m = "roundHalfEven (x / ?q)"
  from exponent_ge1 [OF assms] have nn: "0 \<le> ?e" and lo: "2 powi ?e \<le> x"
    by simp_all
  have qpos: "0 < ?q"
    by simp
  have split: "(2 :: rat) powi ?e = 2 powi 52 * ?q"
    using power_int_add [of "2 :: rat" 52 "?e - 52"] by simp
  from lo have "2 powi 52 * ?q \<le> x"
    unfolding split .
  then have "(2 :: rat) powi 52 \<le> x / ?q"
    using qpos by (simp add: pos_le_divide_eq)
  then have "(of_int (2 ^ 52) :: rat) \<le> x / ?q"
    by simp
  then have "2 ^ 52 \<le> \<lfloor>x / ?q\<rfloor>"
    by (simp only: le_floor_iff)
  with roundHalfEven_ge_floor [of "x / ?q"] have m: "2 ^ 52 \<le> ?m"
    by linarith
  then have "(of_int (2 ^ 52) :: rat) \<le> of_int ?m"
    by (simp only: of_int_le_iff)
  then have "(2 :: rat) powi 52 * ?q \<le> of_int ?m * ?q"
    using qpos by simp
  then have r: "2 powi ?e \<le> of_int ?m * ?q"
    unfolding split .
  from assms have ab: "\<bar>x\<bar> = x" "x \<noteq> 0" "0 < x"
    by simp_all
  from nn have mx: "max ?e (- 1022) = ?e"
    by simp
  show ?thesis
    unfolding toDouble_def Let_def ab(1) mx using ab(2,3) r by simp
qed

section \<open>Failures of addItem\<close>

text \<open>
  C1 (as amended). When the product id is empty or the requested quantity is below 1,
  \<open>addItem\<close> fails with the invalid-input error. Otherwise it fails with
  \<open>ProductNotFound\<close> when the product is not in the catalog, else with \<open>OutOfStock\<close> when
  the product's \<open>inStock\<close> is false, else with \<open>StockExceeded\<close> when the existing quantity
  plus the requested one exceeds the product's stock, else with \<open>QuantityLimit\<close> when that
  sum exceeds 10. Every failure leaves the whole cart state, and so its line items,
  unchanged.
\<close>

theorem addItem_failure_cases:
  "(productId = [] \<or> flt q (Fin 1) \<longrightarrow>
      addItem products now productId q s = (Inl InvalidInput, s)) \<and>
   (productId \<noteq> [] \<and> \<not> flt q (Fin 1) \<longrightarrow>
      (getProductById products productId = None \<longrightarrow>
         addItem products now productId q s = (Inl ProductNotFound, s)) \<and>
      (\<forall>p. getProductById products productId = Some p \<and> \<not> inStock p \<longrightarrow>
         addItem products now productId q s = (Inl OutOfStock, s)) \<and>
      (\<forall>p. getProductById products productId = Some p \<and> inStock p \<and>
           fgt (fadd (getItemQuantity s productId) q) (ofInt (stock p)) \<longrightarrow>
         addItem products now productId q s = (Inl StockExceeded, s)) \<and>
      (\<forall>p. getProductById products productId = Some p \<and> inStock p \<and>
           \<not> fgt (fadd (getItemQuantity s productId) q) (ofInt (stock p)) \<and>
           fgt (fadd (getItemQuantity s productId) q) MAX_QUANTITY \<longrightarrow>
         addItem products now productId q s = (Inl QuantityLimit, s))) \<and>
   (\<forall>e. fst (addItem products now productId q s) = Inl e \<longrightarrow>
        snd (addItem products now productId q s) = s)"
  by (auto simp: addItem_def Let_def split: option.splits)

text \<open>
  The example of the specification: stock 5, a stored quantity of 4 and a request for 2
  more fails with \<open>StockExceeded\<close> and the stored quantity stays 4. The other errors are
  exercised as well.
\<close>

theorem addItem_failure_cases_witness:
  "getItemQuantity (cartOf [line ''p1'' 4]) ''p1'' = Fin 4 \<and> stock phone = 5 \<and>
   addItem [phone] 100 ''p1'' (Fin 2) (cartOf [line ''p1'' 4]) =
     (Inl StockExceeded, cartOf [line ''p1'' 4]) \<and>
   map quantity (items (snd (addItem [phone] 100 ''p1'' (Fin 2) (cartOf [line ''p1'' 4])))) =
     [Fin 4] \<and>
   addItem [phone] 100 ''p9'' (Fin 1) (cartOf [line ''p1'' 4]) =
     (Inl ProductNotFound, cartOf [line ''p1'' 4]) \<and>
   addItem [soldOut] 100 ''p3'' (Fin 1) (cartOf []) = (Inl OutOfStock, cartOf []) \<and>
   addItem [hub] 100 ''p2'' (Fin 7) (cartOf [line ''p2'' 4]) =
     (Inl QuantityLimit, cartOf [line ''p2'' 4]) \<and>
   addItem [hub] 100 ''p2'' (Fin 0) (cartOf []) = (Inl InvalidInput, cartOf [])"
proof -
  have sums: "toDouble 6 = Fin 6" "toDouble 11 = Fin 11"
    using toDouble_of_int [of 6] toDouble_of_int [of 11] by simp_all
  from addItem_failure_cases [of "''p1''" "Fin 2" "[phone]" 100 "cartOf [line ''p1'' 4]"]
    addItem_failure_cases [of "''p9''" "Fin 1" "[phone]" 100 "cartOf [line ''p1'' 4]"]
    addItem_failure_cases [of "''p3''" "Fin 1" "[soldOut]" 100 "cartOf []"]
    addItem_failure_cases [of "''p2''" "Fin 7" "[hub]" 100 "cartOf [line ''p2'' 4]"]
    addItem_failure_cases [of "''p2''" "Fin 0" "[hub]" 100 "cartOf []"]
  show ?thesis
    by (simp add: getProductById_def getItemQuantity_def phone_def hub_def soldOut_def
        line_def cartOf_def MAX_QUANTITY_def ofInt_def fgt_def sums)
qed

text \<open>
  C1 as stated does not hold for every quantity: a request for 0 of an unknown product
  fails with the invalid-input error, not \<open>ProductNotFound\<close>; and a sum that exceeds both
  the stock and the maximum fails with \<open>StockExceeded\<close>, not \<open>QuantityLimit\<close>.
\<close>

theorem addItem_claim_counterexample:
  "getProductById [] ''p1'' = None \<and>
   fst (addItem [] 100 ''p1'' (Fin 0) (cartOf [])) = Inl InvalidInput \<and>
   fgt (fadd (getItemQuantity (cartOf [line ''p1'' 4]) ''p1'') (Fin 7)) MAX_QUANTITY \<and>
   fst (addItem [phone] 100 ''p1'' (Fin 7) (cartOf [line ''p1'' 4])) = Inl StockExceeded"
proof -
  have sums: "toDouble 11 = Fin 11"
    using toDouble_of_int [of 11] by simp
  show ?thesis
    by (simp add: addItem_def getProductById_def getItemQuantity_def phone_def
        line_def cartOf_def MAX_QUANTITY_def ofInt_def fgt_def sums)
qed

section \<open>Sorting\<close>










section \<open>Pagination\<close>

lemma ceil_div_bounds:
  assumes "1 \<le> per"
  shows "\<exists>n. ceil_div len per = Finite n \<and> (n - 1) * per < int len \<and> int len \<le> n * per"
proof -
  let ?x = "(of_nat len :: rat) / of_int per"
  have pos: "(0::rat) < of_int per" using assms by simp
  have "of_int (\<lceil>?x\<rceil> - 1) < ?x"
    using less_ceiling_iff [of "\<lceil>?x\<rceil> - 1" ?x] by simp
  then have "of_int (\<lceil>?x\<rceil> - 1) * of_int per < (of_nat len :: rat)"
    using pos_less_divide_eq [OF pos, of "of_int (\<lceil>?x\<rceil> - 1)" "of_nat len"] by blast
  then have "(of_int ((\<lceil>?x\<rceil> - 1) * per) :: rat) < of_int (int len)"
    by simp
  then have lo: "(\<lceil>?x\<rceil> - 1) * per < int len"
    by (simp only: of_int_less_iff)
  have "?x \<le> of_int \<lceil>?x\<rceil>"
    by (rule le_of_int_ceiling)
  then have "(of_nat len :: rat) \<le> of_int \<lceil>?x\<rceil> * of_int per"
    using pos_divide_le_eq [OF pos, of "of_nat len" "of_int \<lceil>?x\<rceil>"] by blast
  then have "(of_int (int len) :: rat) \<le> of_int (\<lceil>?x\<rceil> * per)"
    by simp
  then have hi: "int len \<le> \<lceil>?x\<rceil> * per"
    by (simp only: of_int_le_iff)
  from assms lo hi show ?thesis
    by (simp add: ceil_div_def)
qed

lemma slice_nonneg:
  assumes "0 \<le> start" "0 \<le> n"
  shows "slice xs start (start + n) = take (nat n) (drop (nat start) xs)"
proof -
  consider "start + n \<le> int (length xs)"
    | "start \<le> int (length xs)" "int (length xs) < start + n"
    | "int (length xs) < start"
    by linarith
  then show ?thesis
  proof cases
    case 1
    with assms show ?thesis
      by (simp add: slice_def Let_def min_def)
  next
    case 2
    with assms have "length (drop (nat start) xs) \<le> nat n"
      by simp
    moreover from 2 assms have "length (drop (nat start) xs) \<le> nat (int (length xs) - start)"
      by simp
    ultimately show ?thesis
      using 2 assms by (simp add: slice_def Let_def min_def)
  next
    case 3
    with assms show ?thesis
      by (simp add: slice_def Let_def min_def)
  qed
qed

lemma slice_to_zero: "slice xs start 0 = []"
  by (simp add: slice_def Let_def)

text \<open>
  C6 (as amended). For every item list, every \<open>perPage \<ge> 1\<close> and every page \<open>\<ge> 0\<close>:
  a page \<open>\<ge> 1\<close> returns exactly the slice from \<open>(page - 1) * perPage\<close> of length at most
  \<open>perPage\<close>; \<open>total\<close> is the input length; \<open>totalPages\<close> is the least \<open>n\<close> with
  \<open>total \<le> n * perPage\<close>, the ceiling of \<open>total / perPage\<close>; page 0 and every page beyond
  \<open>totalPages\<close> yield no items; \<open>hasNext\<close> holds iff \<open>page * perPage < total\<close> and \<open>hasPrev\<close>
  iff \<open>page > 1\<close>; an omitted \<open>perPage\<close> is 12. The result is a value for every input, no
  error is raised.
\<close>

theorem paginateProducts_pages:
  assumes "1 \<le> per" and "0 \<le> pg"
  shows "(1 \<le> pg \<longrightarrow>
            page_items (paginateProducts xs (Some pg) (Some per)) =
              take (nat per) (drop (nat ((pg - 1) * per)) xs)) \<and>
         total (paginateProducts xs (Some pg) (Some per)) = length xs \<and>
         (\<exists>n. totalPages (paginateProducts xs (Some pg) (Some per)) = Finite n \<and>
              (n - 1) * per < int (length xs) \<and> int (length xs) \<le> n * per \<and>
              (pg = 0 \<or> n < pg \<longrightarrow> page_items (paginateProducts xs (Some pg) (Some per)) = [])) \<and>
         hasNext (paginateProducts xs (Some pg) (Some per)) = (pg * per < int (length xs)) \<and>
         hasPrev (paginateProducts xs (Some pg) (Some per)) = (1 < pg) \<and>
         paginateProducts xs (Some pg) None = paginateProducts xs (Some pg) (Some 12)"
proof -
  obtain n where n: "ceil_div (length xs) per = Finite n"
      "(n - 1) * per < int (length xs)" "int (length xs) \<le> n * per"
    using ceil_div_bounds [OF assms(1)] by blast
  have items1: "page_items (paginateProducts xs (Some pg) (Some per)) =
      take (nat per) (drop (nat ((pg - 1) * per)) xs)" if "1 \<le> pg"
    using that assms(1) slice_nonneg [of "(pg - 1) * per" per xs]
    by (simp add: paginateProducts_def Let_def)
  have items0: "page_items (paginateProducts xs (Some pg) (Some per)) = []" if "pg = 0"
    using that slice_to_zero [of xs "- per"]
    by (simp add: paginateProducts_def Let_def)
  have beyond: "page_items (paginateProducts xs (Some pg) (Some per)) = []" if "n < pg"
  proof -
    from that have "n \<le> pg - 1" by simp
    with assms(1) have "n * per \<le> (pg - 1) * per"
      by (simp add: mult_right_mono)
    with n(3) have "int (length xs) \<le> (pg - 1) * per" by linarith
    moreover have "1 \<le> pg"
    proof -
      from n(3) have "0 \<le> n * per" by linarith
      with assms(1) have "0 \<le> n"
        by (simp add: zero_le_mult_iff)
      with that show ?thesis by linarith
    qed
    ultimately show ?thesis
      using items1 by simp
  qed
  have "hasNext (paginateProducts xs (Some pg) (Some per)) = (pg * per < int (length xs))"
    by (simp add: paginateProducts_def Let_def algebra_simps)
  moreover have "hasPrev (paginateProducts xs (Some pg) (Some per)) = (1 < pg)"
    by (simp add: paginateProducts_def Let_def)
  moreover have "total (paginateProducts xs (Some pg) (Some per)) = length xs"
    by (simp add: paginateProducts_def Let_def)
  moreover have "totalPages (paginateProducts xs (Some pg) (Some per)) = Finite n"
    using n(1) by (simp add: paginateProducts_def Let_def)
  moreover have "paginateProducts xs (Some pg) None = paginateProducts xs (Some pg) (Some 12)"
    by (simp add: paginateProducts_def ITEMS_PER_PAGE_def)
  ultimately show ?thesis
    using items1 items0 beyond n(2,3) by blast
qed

text \<open>The example of the specification: seven items, page 2 and page 4 with 3 per page.\<close>

theorem paginateProducts_pages_witness:
  "(1::int) \<le> 3 \<and> (0::int) \<le> 2 \<and>
   page_items (paginateProducts [0, 1, 2, 3, 4, 5, 6 :: nat] (Some 2) (Some 3)) = [3, 4, 5] \<and>
   total (paginateProducts [0, 1, 2, 3, 4, 5, 6 :: nat] (Some 2) (Some 3)) = 7 \<and>
   totalPages (paginateProducts [0, 1, 2, 3, 4, 5, 6 :: nat] (Some 2) (Some 3)) = Finite 3 \<and>
   hasNext (paginateProducts [0, 1, 2, 3, 4, 5, 6 :: nat] (Some 2) (Some 3)) \<and>
   hasPrev (paginateProducts [0, 1, 2, 3, 4, 5, 6 :: nat] (Some 2) (Some 3)) \<and>
   page_items (paginateProducts [0, 1, 2, 3, 4, 5, 6 :: nat] (Some 4) (Some 3)) = []"
proof -
  let ?xs = "[0, 1, 2, 3, 4, 5, 6 :: nat]"
  have h: "(1::int) \<le> 3" "(0::int) \<le> 2" "(0::int) \<le> 4"
    by simp_all
  have len: "int (length ?xs) = 7"
    by simp
  from paginateProducts_pages [OF h(1) h(2), of ?xs] obtain n where
    its: "page_items (paginateProducts ?xs (Some 2) (Some 3)) = take (nat 3) (drop (nat ((2 - 1) * 3)) ?xs)" and
    tot: "total (paginateProducts ?xs (Some 2) (Some 3)) = length ?xs" and
    tp: "totalPages (paginateProducts ?xs (Some 2) (Some 3)) = Finite n" and
    lo: "(n - 1) * 3 < int (length ?xs)" and hi: "int (length ?xs) \<le> n * 3" and
    nx: "hasNext (paginateProducts ?xs (Some 2) (Some 3)) = (2 * 3 < int (length ?xs))" and
    pv: "hasPrev (paginateProducts ?xs (Some 2) (Some 3)) = ((1::int) < 2)"
    by auto
  from lo hi have n3: "n = 3"
    unfolding len by presburger
  from paginateProducts_pages [OF h(1) h(3), of ?xs] obtain m where
    tp4: "totalPages (paginateProducts ?xs (Some 4) (Some 3)) = Finite m" and
    lo4: "(m - 1) * 3 < int (length ?xs)" and
    out: "(4::int) = 0 \<or> m < 4 \<longrightarrow> page_items (paginateProducts ?xs (Some 4) (Some 3)) = []"
    by auto
  from lo4 have "m < 4"
    unfolding len by presburger
  with out have e4: "page_items (paginateProducts ?xs (Some 4) (Some 3)) = []"
    by blast
  have "take (nat 3) (drop (nat ((2 - 1) * 3)) ?xs) = [3, 4, 5]"
    by simp
  with its tot tp n3 nx pv e4 len show ?thesis
    by simp
qed

text \<open>
  C6 as stated fails for a negative page, which is out of range: \<open>slice\<close> counts negative
  indices from the end of the array, so page -1 of seven items with 3 per page yields the
  items at positions 1 to 3 instead of none.
\<close>

theorem paginateProducts_negative_page_counterexample:
  "page_items (paginateProducts [0, 1, 2, 3, 4, 5, 6 :: nat] (Some (- 1)) (Some 3)) = [1, 2, 3]"
  by (simp add: paginateProducts_def slice_def)

section \<open>Cart validation\<close>

lemma validateLoop_spec:
  "validateLoop products now its v acc = (v', acc') \<Longrightarrow>
     map inv_id (invalidItems v') =
       map inv_id (invalidItems v) @ map item_id (filter (productMissing products) its) \<and>
     map (\<lambda>r. (oos_id r, currentQuantity r)) (outOfStockItems v') =
       map (\<lambda>r. (oos_id r, currentQuantity r)) (outOfStockItems v) @
       map (\<lambda>it. (item_id it, quantity it)) (filter (productOutOfStock products) its) \<and>
     map (\<lambda>r. (upd_id r, oldQuantity r, newQuantity r)) (updatedItems v') =
       map (\<lambda>r. (upd_id r, oldQuantity r, newQuantity r)) (updatedItems v) @
       map (\<lambda>it. (item_id it, quantity it, liveStock products it))
         (filter (exceedsStock products) its) \<and>
     acc' = acc @ map (clampToStock products now) (filter (productAvailable products) its) \<and>
     isValid v' = isValid v"
proof (induction its arbitrary: v acc)
  case Nil
  then show ?case by simp
next
  case (Cons it its)
  show ?case
  proof (cases "getProductById products (item_id it)")
    case None
    with Cons.prems have
      "validateLoop products now its
         (v\<lparr>invalidItems := invalidItems v @
              [\<lparr>inv_id = item_id it,
                inv_name = (case item_product it of
                              None \<Rightarrow> ''Unknown Product''
                            | Some c \<Rightarrow> if s_name c = [] then ''Unknown Product'' else s_name c),
                inv_reason = ''Product no longer available''\<rparr>]\<rparr>) acc = (v', acc')"
      by simp
    from Cons.IH [OF this] None show ?thesis
      by (simp add: productMissing_def productOutOfStock_def productAvailable_def
          exceedsStock_def)
  next
    case (Some p)
    show ?thesis
    proof (cases "inStock p")
      case False
      with Some Cons.prems have
        "validateLoop products now its
           (v\<lparr>outOfStockItems := outOfStockItems v @
                [\<lparr>oos_id = item_id it, oos_name = name p,
                  currentQuantity = quantity it\<rparr>]\<rparr>) acc = (v', acc')"
        by simp
      from Cons.IH [OF this] Some False show ?thesis
        by (simp add: productMissing_def productOutOfStock_def productAvailable_def
            exceedsStock_def)
    next
      case True
      show ?thesis
      proof (cases "fgt (quantity it) (ofInt (stock p))")
        case gt: True
        with Some True Cons.prems have
          "validateLoop products now its
             (v\<lparr>updatedItems := updatedItems v @
                  [\<lparr>upd_id = item_id it, upd_name = name p,
                    oldQuantity = quantity it, newQuantity = stock p\<rparr>]\<rparr>)
             (acc @ [it\<lparr>quantity := ofInt (stock p), updatedAt := now\<rparr>]) = (v', acc')"
          by simp
        from Cons.IH [OF this] Some True gt show ?thesis
          by (simp add: productMissing_def productOutOfStock_def productAvailable_def
              exceedsStock_def liveStock_def clampToStock_def)
      next
        case le: False
        with Some True Cons.prems have
          "validateLoop products now its v (acc @ [it]) = (v', acc')"
          by simp
        from Cons.IH [OF this] Some True le show ?thesis
          by (simp add: productMissing_def productOutOfStock_def productAvailable_def
              exceedsStock_def liveStock_def clampToStock_def)
      qed
    qed
  qed
qed

lemma length_filter_eq_iff: "(length (filter P xs) = length xs) = (\<forall>x \<in> set xs. P x)"
proof
  assume eq: "length (filter P xs) = length xs"
  show "\<forall>x \<in> set xs. P x"
  proof
    fix x assume "x \<in> set xs"
    show "P x"
    proof (rule ccontr)
      assume "\<not> P x"
      with \<open>x \<in> set xs\<close> have "length (filter P xs) < length xs"
        by (rule length_filter_less)
      with eq show False by simp
    qed
  qed
next
  assume "\<forall>x \<in> set xs. P x"
  then have "filter P xs = xs"
    by (simp only: filter_id_conv)
  then show "length (filter P xs) = length xs"
    by simp
qed

lemma available_iff:
  "productAvailable products it =
     (\<not> productMissing products it \<and> \<not> productOutOfStock products it)"
  by (simp add: productAvailable_def productMissing_def productOutOfStock_def
      split: option.splits)

text \<open>
  C4. For every cart and catalog, \<open>validateCart\<close> reports in \<open>invalidItems\<close> exactly the
  lines whose product is missing from the catalog and in \<open>outOfStockItems\<close> exactly the
  lines whose product is out of stock, in cart order; the cart keeps exactly the other
  lines, each clamped to the live stock when its quantity exceeded it, and those clamped
  lines are reported in \<open>updatedItems\<close> with the old and the new quantity; the kept lines
  are persisted; and \<open>isValid\<close> is true exactly when no line was dropped.
\<close>

theorem validateCart_reconciles:
  assumes "validateCart products now s = (v, s')"
  shows "map inv_id (invalidItems v) =
           map item_id (filter (productMissing products) (items s)) \<and>
         map (\<lambda>r. (oos_id r, currentQuantity r)) (outOfStockItems v) =
           map (\<lambda>it. (item_id it, quantity it)) (filter (productOutOfStock products) (items s)) \<and>
         items s' = map (clampToStock products now) (filter (productAvailable products) (items s)) \<and>
         map (\<lambda>r. (upd_id r, oldQuantity r, newQuantity r)) (updatedItems v) =
           map (\<lambda>it. (item_id it, quantity it, liveStock products it))
             (filter (exceedsStock products) (items s)) \<and>
         (setItem_ok s \<longrightarrow> storage s' = Some (CartData (items s') (Some now))) \<and>
         isValid v = (length (items s') = length (items s))"
proof -
  obtain w acc where loop:
    "validateLoop products now (items s)
       \<lparr>isValid = True, invalidItems = [], outOfStockItems = [], updatedItems = []\<rparr> [] = (w, acc)"
    by (cases "validateLoop products now (items s)
       \<lparr>isValid = True, invalidItems = [], outOfStockItems = [], updatedItems = []\<rparr> []")
  from validateLoop_spec [OF loop] have
    inv: "map inv_id (invalidItems w) = map item_id (filter (productMissing products) (items s))" and
    oos: "map (\<lambda>r. (oos_id r, currentQuantity r)) (outOfStockItems w) =
           map (\<lambda>it. (item_id it, quantity it)) (filter (productOutOfStock products) (items s))" and
    upd: "map (\<lambda>r. (upd_id r, oldQuantity r, newQuantity r)) (updatedItems w) =
           map (\<lambda>it. (item_id it, quantity it, liveStock products it))
             (filter (exceedsStock products) (items s))" and
    acc: "acc = map (clampToStock products now) (filter (productAvailable products) (items s))" and
    val: "isValid w"
    by simp_all
  from assms loop have v: "v = (if invalidItems w \<noteq> [] \<or> outOfStockItems w \<noteq> []
                                then w\<lparr>isValid := False\<rparr> else w)"
    and s': "s' = saveToStorage now (s\<lparr>items := acc\<rparr>)"
    by (simp_all add: validateCart_def)
  have its: "items s' = acc"
    by (simp add: s' saveToStorage_def)
  have sto: "setItem_ok s \<longrightarrow> storage s' = Some (CartData (items s') (Some now))"
    by (simp add: s' saveToStorage_def)
  have e1: "(invalidItems w = []) = (filter (productMissing products) (items s) = [])"
  proof -
    have "(map inv_id (invalidItems w) = []) =
          (map item_id (filter (productMissing products) (items s)) = [])"
      by (simp only: inv)
    then show ?thesis
      by (simp only: map_is_Nil_conv)
  qed
  have e2: "(outOfStockItems w = []) = (filter (productOutOfStock products) (items s) = [])"
  proof -
    have "(map (\<lambda>r. (oos_id r, currentQuantity r)) (outOfStockItems w) = []) =
          (map (\<lambda>it. (item_id it, quantity it))
             (filter (productOutOfStock products) (items s)) = [])"
      by (simp only: oos)
    then show ?thesis
      by (simp only: map_is_Nil_conv)
  qed
  have e3: "(invalidItems w = [] \<and> outOfStockItems w = []) =
        (\<forall>it \<in> set (items s). productAvailable products it)"
    unfolding e1 e2 filter_empty_conv available_iff by blast
  have len: "(length acc = length (items s)) =
        (\<forall>it \<in> set (items s). productAvailable products it)"
    unfolding acc length_map by (rule length_filter_eq_iff)
  have iv: "isValid v = (invalidItems w = [] \<and> outOfStockItems w = [])"
    using val by (simp add: v)
  have "isValid v = (length (items s') = length (items s))"
    unfolding iv its e3 len ..
  moreover have "invalidItems v = invalidItems w" "outOfStockItems v = outOfStockItems w"
      "updatedItems v = updatedItems w"
    by (simp_all add: v)
  ultimately show ?thesis
    unfolding its using inv oos upd acc sto [unfolded its] by (simp only: simp_thms)
qed

text \<open>
  A cart with a line over stock, a line of a deleted product and a line of a sold-out
  product; and a cart whose only line is over stock, which stays valid.
\<close>

theorem validateCart_reconciles_witness:
  "map inv_id (invalidItems (fst (validateCart [phone, soldOut] 100 staleCart))) = [''p9''] \<and>
   map (\<lambda>r. (oos_id r, currentQuantity r))
     (outOfStockItems (fst (validateCart [phone, soldOut] 100 staleCart))) = [(''p3'', Fin 2)] \<and>
   map (\<lambda>it. (item_id it, quantity it))
     (items (snd (validateCart [phone, soldOut] 100 staleCart))) = [(''p1'', Fin 5)] \<and>
   map (\<lambda>r. (upd_id r, oldQuantity r, newQuantity r))
     (updatedItems (fst (validateCart [phone, soldOut] 100 staleCart))) = [(''p1'', Fin 9, 5)] \<and>
   storage (snd (validateCart [phone, soldOut] 100 staleCart)) =
     Some (CartData (items (snd (validateCart [phone, soldOut] 100 staleCart))) (Some 100)) \<and>
   \<not> isValid (fst (validateCart [phone, soldOut] 100 staleCart)) \<and>
   isValid (fst (validateCart [phone, soldOut] 100 (cartOf [line ''p1'' 9])))"
proof -
  have ok: "setItem_ok staleCart"
    by (simp add: staleCart_def cartOf_def)
  note a = validateCart_reconciles [OF surjective_pairing, of "[phone, soldOut]" 100 staleCart]
  note b = validateCart_reconciles [OF surjective_pairing, of "[phone, soldOut]" 100
      "cartOf [line ''p1'' 9]"]
  from a b ok show ?thesis
    by (simp add: staleCart_def cartOf_def line_def phone_def soldOut_def getProductById_def
        productMissing_def productOutOfStock_def productAvailable_def liveStock_def
        exceedsStock_def clampToStock_def ofInt_def fgt_def)
qed

section \<open>Loading from storage\<close>

lemma daysDiff_gt_30:
  "(30 < (of_int d :: rat) / (1000 * 60 * 60 * 24)) = (30 * (24 * 60 * 60 * 1000) < d)"
proof -
  have "(30 < (of_int d :: rat) / 86400000) = (30 * 86400000 < (of_int d :: rat))"
    by (rule pos_less_divide_eq) simp
  also have "\<dots> = ((of_int 2592000000 :: rat) < of_int d)"
    by simp
  also have "\<dots> = (2592000000 < d)"
    by (rule of_int_less_iff)
  finally show ?thesis
    by simp
qed

text \<open>
  C7 (as amended). When the write to storage succeeds, loading a persisted record that is
  non-empty text which does not parse, that is malformed, or whose \<open>savedAt\<close> lies more than
  30 days before the current time yields an empty cart and persists the empty cart with
  the current time. Loading the empty string also yields an empty cart, but nothing is
  written: the storage keeps the empty string. \<open>loadFromStorage\<close> is a total function into
  cart states: no failure reaches the caller.
\<close>

theorem loadFromStorage_discards:
  assumes "setItem_ok s"
  shows "(storage s = Some Unparsable \<or> storage s = Some Malformed \<or>
          (\<exists>its savedDate. storage s = Some (CartData its (Some savedDate)) \<and>
             30 * (24 * 60 * 60 * 1000) < now - savedDate) \<longrightarrow>
            items (loadFromStorage now s) = [] \<and>
            storage (loadFromStorage now s) = Some (CartData [] (Some now))) \<and>
         (storage s = Some EmptyText \<longrightarrow>
            items (loadFromStorage now s) = [] \<and>
            storage (loadFromStorage now s) = Some EmptyText)"
proof (intro conjI impI)
  assume h: "storage s = Some Unparsable \<or> storage s = Some Malformed \<or>
          (\<exists>its savedDate. storage s = Some (CartData its (Some savedDate)) \<and>
             30 * (24 * 60 * 60 * 1000) < now - savedDate)"
  then consider "storage s = Some Unparsable" | "storage s = Some Malformed"
    | its savedDate where "storage s = Some (CartData its (Some savedDate))"
        "30 * (24 * 60 * 60 * 1000) < now - savedDate"
    by blast
  then have both: "items (loadFromStorage now s) = [] \<and>
      storage (loadFromStorage now s) = Some (CartData [] (Some now))"
  proof cases
    case 1
    with assms show ?thesis
      by (simp add: loadFromStorage_def saveToStorage_def)
  next
    case 2
    with assms show ?thesis
      by (simp add: loadFromStorage_def saveToStorage_def)
  next
    case 3
    from 3(2) have "30 < (of_int (now - savedDate) :: rat) / (1000 * 60 * 60 * 24)"
      by (simp only: daysDiff_gt_30)
    with 3(1) assms show ?thesis
      by (simp add: loadFromStorage_def saveToStorage_def Let_def del: of_int_diff)
  qed
  from both show "items (loadFromStorage now s) = []" ..
  from both show "storage (loadFromStorage now s) = Some (CartData [] (Some now))" ..
next
  assume "storage s = Some EmptyText"
  then show "items (loadFromStorage now s) = []"
    by (simp add: loadFromStorage_def)
next
  assume "storage s = Some EmptyText"
  then show "storage (loadFromStorage now s) = Some EmptyText"
    by (simp add: loadFromStorage_def)
qed

text \<open>A record saved 31 days ago, a record that does not parse, and the empty string.\<close>

theorem loadFromStorage_discards_witness:
  "items (loadFromStorage (31 * (24 * 60 * 60 * 1000)) expiredStore) = [] \<and>
   storage (loadFromStorage (31 * (24 * 60 * 60 * 1000)) expiredStore) =
     Some (CartData [] (Some (31 * (24 * 60 * 60 * 1000)))) \<and>
   items (loadFromStorage 5 corruptStore) = [] \<and>
   storage (loadFromStorage 5 corruptStore) = Some (CartData [] (Some 5)) \<and>
   items (loadFromStorage 5 emptyTextStore) = [] \<and>
   storage (loadFromStorage 5 emptyTextStore) = Some EmptyText"
proof -
  have e: "setItem_ok expiredStore"
    "storage expiredStore = Some Unparsable \<or> storage expiredStore = Some Malformed \<or>
         (\<exists>its savedDate. storage expiredStore = Some (CartData its (Some savedDate)) \<and>
            30 * (24 * 60 * 60 * 1000) < 31 * (24 * 60 * 60 * 1000) - savedDate)"
    by (simp_all add: expiredStore_def)
  have c: "setItem_ok corruptStore"
    "storage corruptStore = Some Unparsable \<or> storage corruptStore = Some Malformed \<or>
         (\<exists>its savedDate. storage corruptStore = Some (CartData its (Some savedDate)) \<and>
            30 * (24 * 60 * 60 * 1000) < 5 - savedDate)"
    by (simp_all add: corruptStore_def)
  have t: "setItem_ok emptyTextStore" "storage emptyTextStore = Some EmptyText"
    by (simp_all add: emptyTextStore_def)
  from loadFromStorage_discards [OF e(1), of "31 * (24 * 60 * 60 * 1000)"] e(2)
    loadFromStorage_discards [OF c(1), of 5] c(2)
    loadFromStorage_discards [OF t(1), of 5] t(2)
  show ?thesis
    by blast
qed

text \<open>
  C7 as stated fails for the empty string, a blob that does not parse: the cart is
  emptied, but the empty default is not persisted although the write would succeed.
\<close>

theorem loadFromStorage_empty_text_counterexample:
  "setItem_ok emptyTextStore \<and>
   storage emptyTextStore = Some EmptyText \<and>
   items (loadFromStorage 5 emptyTextStore) = [] \<and>
   storage (loadFromStorage 5 emptyTextStore) = Some EmptyText \<and>
   storage (loadFromStorage 5 emptyTextStore) \<noteq> Some (CartData [] (Some 5))"
  by (simp add: loadFromStorage_def emptyTextStore_def)

text \<open>A record of at most 30 days is loaded as it is, and nothing is written.\<close>

lemma loadFromStorage_keeps_recent:
  assumes "storage s = Some (CartData its (Some savedDate))"
    and "now - savedDate \<le> 30 * (24 * 60 * 60 * 1000)"
  shows "loadFromStorage now s = s\<lparr>items := its\<rparr>"
proof -
  from assms(2) have "\<not> 30 < (of_int (now - savedDate) :: rat) / (1000 * 60 * 60 * 24)"
    by (simp only: daysDiff_gt_30 not_less)
  with assms(1) show ?thesis
    by (simp add: loadFromStorage_def Let_def del: of_int_diff)
qed

section \<open>Export and import\<close>

text \<open>
  C8 (as amended). Importing what \<open>exportCart\<close> returned reproduces the exported line
  items. For a blob that is absent or whose \<open>items\<close> field is absent or not an array,
  \<open>importCart\<close> returns \<open>false\<close> and leaves the cart state untouched; no error reaches the
  caller. For a well-shaped blob it returns \<open>true\<close>, the cart's lines are exactly the
  blob's lines, and they are persisted when the write succeeds.
\<close>

theorem importCart_exportCart_roundtrip:
  "fst (importCart now (Some (exportCart t s)) s2) = Inr True \<and>
   items (snd (importCart now (Some (exportCart t s)) s2)) = items s \<and>
   ((cartData = None \<or> (\<exists>d. cartData = Some d \<and> data_items d = None)) \<longrightarrow>
      importCart now cartData s = (Inr False, s)) \<and>
   (\<forall>d its. cartData = Some d \<and> data_items d = Some its \<longrightarrow>
      fst (importCart now cartData s) = Inr True \<and>
      items (snd (importCart now cartData s)) = its \<and>
      (setItem_ok s \<longrightarrow>
         storage (snd (importCart now cartData s)) = Some (CartData its (Some now))))"
  by (auto simp: importCart_def exportCart_def saveToStorage_def)

text \<open>A round trip, two blobs of the wrong shape and a well-shaped blob.\<close>

theorem importCart_exportCart_roundtrip_witness:
  "items (snd (importCart 200 (Some (exportCart 100 staleCart)) staleCart)) = items staleCart \<and>
   importCart 200 None staleCart = (Inr False, staleCart) \<and>
   importCart 200 (Some \<lparr>data_items = None, exportedAt = None, version = None\<rparr>) staleCart =
     (Inr False, staleCart) \<and>
   items (snd (importCart 200
     (Some \<lparr>data_items = Some [line ''p2'' 1], exportedAt = None, version = None\<rparr>) staleCart)) =
     [line ''p2'' 1] \<and>
   storage (snd (importCart 200
     (Some \<lparr>data_items = Some [line ''p2'' 1], exportedAt = None, version = None\<rparr>) staleCart)) =
     Some (CartData [line ''p2'' 1] (Some 200))"
  using importCart_exportCart_roundtrip [of 200 100 staleCart staleCart None]
    importCart_exportCart_roundtrip [of 200 100 staleCart staleCart
      "Some \<lparr>data_items = None, exportedAt = None, version = None\<rparr>"]
    importCart_exportCart_roundtrip [of 200 100 staleCart staleCart
      "Some \<lparr>data_items = Some [line ''p2'' 1], exportedAt = None, version = None\<rparr>"]
  by (simp add: staleCart_def cartOf_def)

text \<open>
  C8 as stated says that a blob of the wrong shape makes \<open>importCart\<close> fail with
  \<open>InvalidCartData\<close>. The error is thrown and caught inside \<open>importCart\<close>: the caller gets
  the value \<open>false\<close>.
\<close>

theorem importCart_wrong_shape_counterexample:
  "fst (importCart 200 None staleCart) = Inr False \<and>
   fst (importCart 200 None staleCart) \<noteq> Inl InvalidCartData \<and>
   fst (importCart 200 (Some \<lparr>data_items = None, exportedAt = None, version = None\<rparr>) staleCart)
     = Inr False"
  by (simp add: importCart_def)

section \<open>Cart summary\<close>

lemma joinItems_items:
  "map e_item (joinItems products its) = filter (\<lambda>it. \<not> orphan products it) its"
  by (induction its) (auto simp: orphan_def split: option.splits)

lemma joinItems_filter:
  "joinItems products (filter (\<lambda>it. \<not> orphan products it) its) = joinItems products its"
  by (induction its) (auto simp: orphan_def split: option.splits)

lemma joinItems_amounts:
  "map e_subtotal (joinItems products its) = List.map_filter (lineAmount products) its"
  by (induction its)
    (auto simp: lineAmount_def linePrice_def map_filter_simps split: option.splits)

lemma subtotal_aggregate:
  "foldl (\<lambda>sum item. fadd sum (e_subtotal item)) (Fin 0) (getCartItems products s) =
   aggregate products (items s)"
proof -
  have "foldl (\<lambda>sum item. fadd sum (e_subtotal item)) (Fin 0) (joinItems products (items s)) =
      foldl fadd (Fin 0) (map e_subtotal (joinItems products (items s)))"
    by (simp only: foldl_map)
  then show ?thesis
    by (simp only: getCartItems_def aggregate_def joinItems_amounts)
qed

lemma amounts_all:
  assumes "\<forall>it \<in> set its. \<not> orphan products it"
  shows "map (lineAmount products) its = map Some (List.map_filter (lineAmount products) its)"
  using assms
  by (induction its)
    (auto simp: orphan_def lineAmount_def linePrice_def map_filter_simps split: option.splits)

lemma round2_zero: "round2 (Fin 0) = Fin 0"
  by code_simp

lemma round2_SHIPPING_COST: "round2 (toDouble (999 / 100)) = toDouble (999 / 100)"
  by code_simp

lemma getCartSummary_fields:
  "subtotal (getCartSummary products s) = round2 (aggregate products (items s)) \<and>
   taxAmount (getCartSummary products s) =
     round2 (fmul (aggregate products (items s)) (toDouble (8 / 100))) \<and>
   shippingCost (getCartSummary products s) =
     (if fge (aggregate products (items s)) (Fin 50) then Fin 0 else toDouble (999 / 100)) \<and>
   cart_summary.total (getCartSummary products s) =
     round2 (fadd (fadd (aggregate products (items s))
                     (if fge (aggregate products (items s)) (Fin 50) then Fin 0
                      else toDouble (999 / 100)))
               (fmul (aggregate products (items s)) (toDouble (8 / 100)))) \<and>
   freeShippingEligible (getCartSummary products s) =
     fge (aggregate products (items s)) (Fin 50) \<and>
   freeShippingRemaining (getCartSummary products s) =
     fmax (Fin 0) (fsub (Fin 50) (aggregate products (items s)))"
proof -
  let ?S = "aggregate products (items s)"
  note sub = subtotal_aggregate [of products s]
  have f1: "subtotal (getCartSummary products s) = round2 ?S"
    by (simp add: getCartSummary_def Let_def sub round2_def)
  have f2: "taxAmount (getCartSummary products s) = round2 (fmul ?S (toDouble (8 / 100)))"
    by (simp add: getCartSummary_def Let_def sub round2_def TAX_RATE_def)
  have "shippingCost (getCartSummary products s) =
      round2 (if fge ?S (Fin 50) then Fin 0 else toDouble (999 / 100))"
    by (simp add: getCartSummary_def Let_def sub round2_def SHIPPING_THRESHOLD_def
        SHIPPING_COST_def)
  then have f3: "shippingCost (getCartSummary products s) =
      (if fge ?S (Fin 50) then Fin 0 else toDouble (999 / 100))"
    by (simp add: round2_zero round2_SHIPPING_COST)
  have f4: "cart_summary.total (getCartSummary products s) =
      round2 (fadd (fadd ?S (if fge ?S (Fin 50) then Fin 0 else toDouble (999 / 100)))
                (fmul ?S (toDouble (8 / 100))))"
    by (simp add: getCartSummary_def Let_def sub round2_def SHIPPING_THRESHOLD_def
        SHIPPING_COST_def TAX_RATE_def)
  have f5: "freeShippingEligible (getCartSummary products s) = fge ?S (Fin 50)"
    by (simp add: getCartSummary_def Let_def sub SHIPPING_THRESHOLD_def)
  have f6: "freeShippingRemaining (getCartSummary products s) =
      fmax (Fin 0) (fsub (Fin 50) ?S)"
    by (simp add: getCartSummary_def Let_def sub SHIPPING_THRESHOLD_def)
  from f1 f2 f3 f4 f5 f6 show ?thesis
    by blast
qed

text \<open>
  C9 (as amended). Let \<open>S\<close> be the aggregate of the cart: the sum in double precision, in
  cart order, of quantity times price over the lines that resolve to a product through
  the live catalog or through their snapshot; no line amount is rounded to two decimals.
  Then the reported subtotal is \<open>S\<close> rounded to two decimals, the reported tax is
  \<open>S * 0.08\<close> rounded, the shipping cost is 0 when \<open>S \<ge> 50\<close> and 9.99 otherwise, and the
  reported total is \<open>S + shipping + S * 0.08\<close> rounded once. The threshold is tested on \<open>S\<close>,
  not on the reported subtotal, and the amount remaining for free shipping is
  \<open>max(0, 50 - S)\<close>, not rounded. In a cart whose lines all resolve, every line
  contributes its amount.
\<close>

theorem getCartSummary_totals:
  "subtotal (getCartSummary products s) = round2 (aggregate products (items s)) \<and>
   taxAmount (getCartSummary products s) =
     round2 (fmul (aggregate products (items s)) (toDouble (8 / 100))) \<and>
   shippingCost (getCartSummary products s) =
     (if fge (aggregate products (items s)) (Fin 50) then Fin 0 else toDouble (999 / 100)) \<and>
   cart_summary.total (getCartSummary products s) =
     round2 (fadd (fadd (aggregate products (items s))
                     (if fge (aggregate products (items s)) (Fin 50) then Fin 0
                      else toDouble (999 / 100)))
               (fmul (aggregate products (items s)) (toDouble (8 / 100)))) \<and>
   freeShippingEligible (getCartSummary products s) =
     fge (aggregate products (items s)) (Fin 50) \<and>
   freeShippingRemaining (getCartSummary products s) =
     fmax (Fin 0) (fsub (Fin 50) (aggregate products (items s))) \<and>
   ((\<forall>it \<in> set (items s). \<not> orphan products it) \<longrightarrow>
      map (lineAmount products) (items s) =
        map Some (List.map_filter (lineAmount products) (items s)))"
  using getCartSummary_fields [of products s] amounts_all [of "items s" products]
  by blast

text \<open>
  The examples of the specification: a cart of one product priced 49.99 pays 9.99 for
  shipping, a cart of one product priced 50.00 pays nothing. A line that resolves through
  its snapshot counts as well: one product priced 50.00 and two cached items priced 5.00
  give a subtotal of 60.00.
\<close>

theorem getCartSummary_totals_witness:
  "subtotal (getCartSummary [priced ''p1'' (4999 / 100)] (cartOf [line ''p1'' 1])) =
     toDouble (4999 / 100) \<and>
   shippingCost (getCartSummary [priced ''p1'' (4999 / 100)] (cartOf [line ''p1'' 1])) =
     toDouble (999 / 100) \<and>
   taxAmount (getCartSummary [priced ''p1'' (4999 / 100)] (cartOf [line ''p1'' 1])) = Fin 4 \<and>
   cart_summary.total (getCartSummary [priced ''p1'' (4999 / 100)] (cartOf [line ''p1'' 1])) =
     toDouble (6398 / 100) \<and>
   subtotal (getCartSummary [hub] (cartOf [line ''p2'' 1])) = Fin 50 \<and>
   shippingCost (getCartSummary [hub] (cartOf [line ''p2'' 1])) = Fin 0 \<and>
   taxAmount (getCartSummary [hub] (cartOf [line ''p2'' 1])) = Fin 4 \<and>
   cart_summary.total (getCartSummary [hub] (cartOf [line ''p2'' 1])) = Fin 54 \<and>
   freeShippingRemaining (getCartSummary [hub] (cartOf [line ''p2'' 1])) = Fin 0 \<and>
   subtotal (getCartSummary [hub] (cartOf [line ''p2'' 1, cachedLine])) = Fin 60 \<and>
   map (lineAmount [hub]) (items (cartOf [line ''p2'' 1, cachedLine])) =
     [Some (Fin 50), Some (Fin 10)]"
proof -
  let ?c1 = "[priced ''p1'' (4999 / 100)]"
  let ?s1 = "cartOf [line ''p1'' 1]"
  let ?s2 = "cartOf [line ''p2'' 1]"
  let ?s3 = "cartOf [line ''p2'' 1, cachedLine]"
  have a1: "aggregate ?c1 (items ?s1) = toDouble (4999 / 100)"
    by code_simp
  have a2: "aggregate [hub] (items ?s2) = Fin 50"
    by code_simp
  have a3: "aggregate [hub] (items ?s3) = Fin 60"
    by code_simp
  have r1: "round2 (toDouble (4999 / 100)) = toDouble (4999 / 100)"
    "round2 (fmul (toDouble (4999 / 100)) (toDouble (8 / 100))) = Fin 4"
    "fge (toDouble (4999 / 100)) (Fin 50) = False"
    "round2 (fadd (fadd (toDouble (4999 / 100)) (toDouble (999 / 100)))
       (fmul (toDouble (4999 / 100)) (toDouble (8 / 100)))) = toDouble (6398 / 100)"
    by code_simp+
  have r2: "round2 (Fin 50) = Fin 50"
    "round2 (fmul (Fin 50) (toDouble (8 / 100))) = Fin 4"
    "fge (Fin 50) (Fin 50) = True"
    "round2 (fadd (fadd (Fin 50) (Fin 0)) (fmul (Fin 50) (toDouble (8 / 100)))) = Fin 54"
    "fmax (Fin 0) (fsub (Fin 50) (Fin 50)) = Fin 0"
    by code_simp+
  have r3: "round2 (Fin 60) = Fin 60"
    by code_simp
  have o: "\<forall>it \<in> set (items ?s3). \<not> orphan [hub] it"
    by (simp add: cartOf_def line_def cachedLine_def hub_def orphan_def getProductById_def)
  have m: "map Some (List.map_filter (lineAmount [hub]) (items ?s3)) =
      [Some (Fin 50), Some (Fin 10)]"
    by code_simp
  note t1 = getCartSummary_totals [of ?c1 ?s1, unfolded a1 r1 if_False]
  note t2 = getCartSummary_totals [of "[hub]" ?s2, unfolded a2 r2 if_True]
  note t3 = getCartSummary_totals [of "[hub]" ?s3, unfolded a3 r3 m]
  from t1 t2 t3 o show ?thesis
    by blast
qed

text \<open>
  C9 as stated fails in double precision. Three products priced 4.02, 28.08 and 17.90,
  one of each: the sum of the prices is below 50 by \<open>2 ^ -47\<close>, so the reported subtotal
  is 50.00 while shipping is charged at 9.99, and the amount remaining for free shipping
  is reported as \<open>2 ^ -47\<close>, which is not a multiple of one cent.
\<close>

theorem getCartSummary_threshold_counterexample:
  "map price centCatalog = [nearestDouble (402 / 100), nearestDouble (2808 / 100),
     nearestDouble (179 / 10)] \<and>
   aggregate centCatalog [line ''a'' 1, line ''b'' 1, line ''c'' 1] =
     Fin (7036874417766399 / 140737488355328) \<and>
   7036874417766399 / 140737488355328 = (50 - 1 / 2 ^ 47 :: rat) \<and>
   subtotal (getCartSummary centCatalog (cartOf [line ''a'' 1, line ''b'' 1, line ''c'' 1])) =
     Fin 50 \<and>
   shippingCost (getCartSummary centCatalog (cartOf [line ''a'' 1, line ''b'' 1, line ''c'' 1])) =
     toDouble (999 / 100) \<and>
   toDouble (999 / 100) \<noteq> Fin 0 \<and>
   freeShippingEligible
     (getCartSummary centCatalog (cartOf [line ''a'' 1, line ''b'' 1, line ''c'' 1])) = False \<and>
   freeShippingRemaining
     (getCartSummary centCatalog (cartOf [line ''a'' 1, line ''b'' 1, line ''c'' 1])) =
     Fin (1 / 140737488355328) \<and>
   round2 (Fin (1 / 140737488355328)) = Fin 0"
proof -
  let ?c = "cartOf [line ''a'' 1, line ''b'' 1, line ''c'' 1]"
  have p: "map price centCatalog = [nearestDouble (402 / 100), nearestDouble (2808 / 100),
     nearestDouble (179 / 10)]"
    by (simp add: centCatalog_def priced_def)
  have a: "aggregate centCatalog [line ''a'' 1, line ''b'' 1, line ''c'' 1] =
      Fin (7036874417766399 / 140737488355328)"
    by code_simp
  have a': "aggregate centCatalog (items ?c) = Fin (7036874417766399 / 140737488355328)"
    using a by (simp add: cartOf_def)
  have e: "7036874417766399 / 140737488355328 = (50 - 1 / 2 ^ 47 :: rat)"
    by simp
  have r: "round2 (Fin (7036874417766399 / 140737488355328)) = Fin 50"
    "fge (Fin (7036874417766399 / 140737488355328)) (Fin 50) = False"
    "fmax (Fin 0) (fsub (Fin 50) (Fin (7036874417766399 / 140737488355328))) =
       Fin (1 / 140737488355328)"
    "toDouble (999 / 100) \<noteq> Fin 0"
    "round2 (Fin (1 / 140737488355328)) = Fin 0"
    by code_simp+
  note f = getCartSummary_fields [of centCatalog ?c]
  from f have "subtotal (getCartSummary centCatalog ?c) =
      round2 (aggregate centCatalog (items ?c))"
    by blast
  then have s1: "subtotal (getCartSummary centCatalog ?c) = Fin 50"
    by (simp only: a' r)
  from f have "shippingCost (getCartSummary centCatalog ?c) =
      (if fge (aggregate centCatalog (items ?c)) (Fin 50) then Fin 0 else toDouble (999 / 100))"
    by blast
  then have s2: "shippingCost (getCartSummary centCatalog ?c) = toDouble (999 / 100)"
    by (simp only: a' r if_False)
  from f have "freeShippingEligible (getCartSummary centCatalog ?c) =
      fge (aggregate centCatalog (items ?c)) (Fin 50)"
    by blast
  then have s3: "freeShippingEligible (getCartSummary centCatalog ?c) = False"
    by (simp only: a' r)
  from f have "freeShippingRemaining (getCartSummary centCatalog ?c) =
      fmax (Fin 0) (fsub (Fin 50) (aggregate centCatalog (items ?c)))"
    by blast
  then have s4: "freeShippingRemaining (getCartSummary centCatalog ?c) =
      Fin (1 / 140737488355328)"
    by (simp only: a' r)
  from p a e s1 s2 r(4) s3 s4 r(5) show ?thesis
    by blast
qed

section \<open>Lines without a product\<close>

lemma validateCart_items:
  "items (snd (validateCart products now s)) =
     map (clampToStock products now) (filter (productAvailable products) (items s))"
proof -
  obtain w acc where loop:
    "validateLoop products now (items s)
       \<lparr>isValid = True, invalidItems = [], outOfStockItems = [], updatedItems = []\<rparr> [] = (w, acc)"
    by (cases "validateLoop products now (items s)
       \<lparr>isValid = True, invalidItems = [], outOfStockItems = [], updatedItems = []\<rparr> []")
  from validateLoop_spec [OF loop]
  have "acc = map (clampToStock products now) (filter (productAvailable products) (items s))"
    by simp
  with loop show ?thesis
    by (simp add: validateCart_def saveToStorage_def)
qed

lemma clampToStock_id: "item_id (clampToStock products now it) = item_id it"
  by (simp add: clampToStock_def)

lemma summary_filter_orphans:
  "getCartSummary products (s\<lparr>items := filter (\<lambda>it. \<not> orphan products it) (items s)\<rparr>) =
   getCartSummary products s"
  by (simp add: getCartSummary_def getCartItems_def joinItems_filter)

text \<open>
  C10. \<open>getCartItems\<close> returns exactly the lines that are resolvable in the live catalog
  or carry a snapshot, in cart order; the summary of a cart equals the summary of the cart
  without its other lines, so these contribute nothing to any field of the summary. Both
  operations only read the cart. After \<open>validateCart\<close> no such line is left in the cart.
\<close>

theorem getCartItems_skips_orphans:
  "map e_item (getCartItems products s) = filter (\<lambda>it. \<not> orphan products it) (items s) \<and>
   getCartSummary products s =
     getCartSummary products (s\<lparr>items := filter (\<lambda>it. \<not> orphan products it) (items s)\<rparr>) \<and>
   (\<forall>it \<in> set (items (snd (validateCart products now s))). \<not> orphan products it)"
proof (intro conjI ballI)
  show "map e_item (getCartItems products s) = filter (\<lambda>it. \<not> orphan products it) (items s)"
    by (simp add: getCartItems_def joinItems_items)
  show "getCartSummary products s =
     getCartSummary products (s\<lparr>items := filter (\<lambda>it. \<not> orphan products it) (items s)\<rparr>)"
    by (rule summary_filter_orphans [symmetric])
next
  fix it
  assume "it \<in> set (items (snd (validateCart products now s)))"
  then obtain it0 where "it = clampToStock products now it0" "productAvailable products it0"
    unfolding validateCart_items by auto
  then show "\<not> orphan products it"
    by (auto simp: orphan_def productAvailable_def clampToStock_id split: option.splits)
qed

text \<open>A cart with one resolvable line and one line of an unknown product without snapshot.\<close>

theorem getCartItems_skips_orphans_witness:
  "orphan [phone] (line ''p9'' 3) \<and> line ''p9'' 3 \<in> set (items orphanCart) \<and>
   map e_item (getCartItems [phone] orphanCart) = [line ''p1'' 2] \<and>
   getCartSummary [phone] orphanCart = getCartSummary [phone] (cartOf [line ''p1'' 2]) \<and>
   itemCount (getCartSummary [phone] orphanCart) = Fin 2 \<and>
   itemLines (getCartSummary [phone] orphanCart) = 1 \<and>
   subtotal (getCartSummary [phone] orphanCart) = Fin 99 \<and>
   items (snd (validateCart [phone] 100 orphanCart)) = [line ''p1'' 2]"
proof -
  note t = getCartItems_skips_orphans [of "[phone]" orphanCart 100]
  have o: "orphan [phone] (line ''p9'' 3)" "\<not> orphan [phone] (line ''p1'' 2)"
    by (simp_all add: orphan_def line_def phone_def getProductById_def)
  have f: "orphanCart\<lparr>items := filter (\<lambda>it. \<not> orphan [phone] it) (items orphanCart)\<rparr> =
      cartOf [line ''p1'' 2]"
    using o by (simp add: orphanCart_def cartOf_def)
  have v: "items (snd (validateCart [phone] 100 orphanCart)) = [line ''p1'' 2]"
    by (simp add: validateCart_def saveToStorage_def orphanCart_def cartOf_def line_def
        phone_def getProductById_def ofInt_def fgt_def)
  have g: "itemCount (getCartSummary [phone] (cartOf [line ''p1'' 2])) = Fin 2"
      "itemLines (getCartSummary [phone] (cartOf [line ''p1'' 2])) = 1"
      "subtotal (getCartSummary [phone] (cartOf [line ''p1'' 2])) = Fin 99"
    by code_simp+
  from t have t1: "map e_item (getCartItems [phone] orphanCart) =
      filter (\<lambda>it. \<not> orphan [phone] it) (items orphanCart)"
    and t2: "getCartSummary [phone] orphanCart =
      getCartSummary [phone]
        (orphanCart\<lparr>items := filter (\<lambda>it. \<not> orphan [phone] it) (items orphanCart)\<rparr>)"
    by blast+
  from t1 o have m: "map e_item (getCartItems [phone] orphanCart) = [line ''p1'' 2]"
    by (simp add: orphanCart_def cartOf_def)
  have i: "line ''p9'' 3 \<in> set (items orphanCart)"
    by (simp add: orphanCart_def cartOf_def)
  from t2 have s: "getCartSummary [phone] orphanCart = getCartSummary [phone] (cartOf [line ''p1'' 2])"
    by (simp only: f)
  from o(1) i m s g v show ?thesis
    by (simp only: s g simp_thms)
qed

section \<open>Search\<close>























section \<open>The cart invariant\<close>

lemma findIndex_Some:
  "findIndex P xs = Some i \<Longrightarrow> i < length xs \<and> P (xs ! i) \<and> find P xs = Some (xs ! i)"
proof (induction xs arbitrary: i)
  case Nil
  then show ?case by simp
next
  case (Cons x xs)
  show ?case
  proof (cases "P x")
    case True
    with Cons.prems show ?thesis by simp
  next
    case False
    with Cons.prems obtain j where j: "findIndex P xs = Some j" "i = Suc j"
      by auto
    from Cons.IH [OF j(1)] False j(2) show ?thesis by simp
  qed
qed

lemma findIndex_None: "(findIndex P xs = None) = (\<forall>x \<in> set xs. \<not> P x)"
  by (induction xs) auto

lemma getProductById_pid: "getProductById products productId = Some p \<Longrightarrow> pid p = productId"
  unfolding getProductById_def by (induction products) (auto split: if_splits)

lemma items_saveToStorage: "items (saveToStorage now s) = items s"
  by (simp add: saveToStorage_def)

lemma cart_inv_update:
  assumes inv: "cart_inv products its" and i: "i < length its"
    and id: "item_id v = item_id (its ! i)" and ok: "line_ok products v"
  shows "cart_inv products (its[i := v])"
proof -
  have "map item_id (its[i := v]) = (map item_id its)[i := item_id (its ! i)]"
    by (simp add: map_update id)
  also have "\<dots> = map item_id its"
    using i by (simp add: list_update_same_conv)
  finally have m: "map item_id (its[i := v]) = map item_id its" .
  have "\<forall>x \<in> set (its[i := v]). line_ok products x"
  proof
    fix x assume "x \<in> set (its[i := v])"
    then have "x = v \<or> x \<in> set its"
      using set_update_subset_insert [of its i v] by auto
    with ok inv show "line_ok products x"
      by (auto simp: cart_inv_def list_all_iff)
  qed
  with m inv show ?thesis
    by (simp add: cart_inv_def list_all_iff)
qed

lemma cart_inv_append:
  assumes inv: "cart_inv products its" and new: "\<forall>x \<in> set its. item_id x \<noteq> item_id v"
    and ok: "line_ok products v"
  shows "cart_inv products (its @ [v])"
  using assms by (auto simp: cart_inv_def list_all_iff)

lemma cart_inv_delete:
  assumes "cart_inv products its"
  shows "cart_inv products (take i its @ drop (Suc i) its)"
proof -
  from assms have d: "distinct (map item_id its)" and a: "\<forall>x \<in> set its. line_ok products x"
    by (simp_all add: cart_inv_def list_all_iff)
  have "map item_id its = map item_id (take i its) @ map item_id (drop i its)"
    by (simp flip: map_append)
  with d have d1: "distinct (map item_id (take i its) @ map item_id (drop i its))"
    by simp
  have sub: "set (drop (Suc i) its) \<subseteq> set (drop i its)"
    by (rule set_drop_subset_set_drop) simp
  have "distinct (map item_id (drop (Suc i) its))"
    using d by (simp add: distinct_drop flip: drop_map)
  with d1 sub have "distinct (map item_id (take i its) @ map item_id (drop (Suc i) its))"
    by auto
  moreover have "\<forall>x \<in> set (take i its @ drop (Suc i) its). line_ok products x"
    using a by (auto dest: in_set_takeD in_set_dropD)
  ultimately show ?thesis
    by (simp add: cart_inv_def list_all_iff)
qed

lemma wholeNumber_iff: "wholeNumber q = (\<exists>k. q = Fin (of_int k))"
proof (cases q)
  case (Fin x)
  have "(x = of_int \<lfloor>x\<rfloor>) = (\<exists>k. x = of_int k)"
    by (metis floor_of_int)
  with Fin show ?thesis
    by (simp add: wholeNumber_def)
qed (simp_all add: wholeNumber_def)

lemma line_ok_iff:
  "line_ok products it =
     (\<exists>k. quantity it = Fin (of_int k) \<and> 1 \<le> k \<and> k \<le> 10 \<and>
        (case getProductById products (item_id it) of None \<Rightarrow> True | Some p \<Rightarrow> k \<le> stock p))"
  unfolding line_ok_def wholeNumber_iff
  by (auto simp: fge_Fin MAX_QUANTITY_def ofInt_def split: option.splits)

lemma toDouble_exact:
  assumes "0 \<le> k" and "k \<le> 15"
  shows "toDouble (of_int k) = Fin (of_int k)"
proof -
  from assms(2) have "k < 2 ^ 53"
    by simp
  with assms(1) show ?thesis
    by (rule toDouble_of_int)
qed

lemma toDouble_big:
  assumes "16 \<le> x"
  shows "fgt (toDouble x) (Fin 10)"
proof -
  from assms have x1: "1 \<le> x"
    by simp
  from exponent_ge1 [OF x1] have e0: "0 \<le> exponent x"
    and up: "\<lfloor>x\<rfloor> < 2 ^ nat (exponent x + 1)"
    by simp_all
  from assms have "16 \<le> \<lfloor>x\<rfloor>"
    by (simp add: le_floor_iff)
  from this up have lt: "(16::int) < 2 ^ nat (exponent x + 1)"
    by (rule le_less_trans)
  have e4: "4 \<le> exponent x"
  proof (rule ccontr)
    assume "\<not> 4 \<le> exponent x"
    then have "nat (exponent x + 1) \<le> 4"
      by simp
    then have "(2::int) ^ nat (exponent x + 1) \<le> 2 ^ 4"
      by (intro power_increasing) simp_all
    with lt show False
      by simp
  qed
  have "(2::rat) powi 4 \<le> 2 powi (exponent x)"
    using e4 by (intro power_int_increasing) simp_all
  then have low: "(16::rat) \<le> 2 powi (exponent x)"
    by simp
  from toDouble_lower [OF x1] consider "toDouble x = PlusInfinity"
    | r where "toDouble x = Fin r" "2 powi (exponent x) \<le> r"
    by blast
  then show ?thesis
  proof cases
    case 1
    then show ?thesis
      by (simp add: fgt_def)
  next
    case 2
    with low have "10 < r"
      by simp
    with 2(1) show ?thesis
      by (simp add: fgt_def)
  qed
qed

lemma fadd_whole:
  assumes "0 \<le> c + k"
  shows "fadd (Fin (of_int c)) (Fin (of_int k)) = Fin (of_int (c + k)) \<or>
         fgt (fadd (Fin (of_int c)) (Fin (of_int k))) (Fin 10)"
proof -
  have e: "fadd (Fin (of_int c)) (Fin (of_int k)) = toDouble (of_int (c + k))"
    by simp
  show ?thesis
  proof (cases "c + k \<le> 15")
    case True
    with assms have "toDouble (of_int (c + k)) = Fin (of_int (c + k))"
      by (rule toDouble_exact)
    then show ?thesis
      unfolding e by (rule disjI1)
  next
    case False
    then have "16 \<le> c + k"
      by simp
    then have "(of_int 16 :: rat) \<le> of_int (c + k)"
      by (simp only: of_int_le_iff)
    then have "(16::rat) \<le> of_int (c + k)"
      by simp
    then have "fgt (toDouble (of_int (c + k))) (Fin 10)"
      by (rule toDouble_big)
    then show ?thesis
      unfolding e by (rule disjI2)
  qed
qed

lemma not_fgt_Fin: "\<not> fgt a (Fin b) \<Longrightarrow> a = NotANumber \<or> fge (Fin b) a"
  by (cases a) (auto simp: fge_def fgt_def)

lemma addItem_inv:
  assumes inv: "cart_inv products (items s)"
    and whole: "wholeNumber q"
    and res: "addItem products now productId q s = (Inr b, s')"
  shows "cart_inv products (items s')"
proof -
  from whole obtain k where k: "q = Fin (of_int k)"
    unfolding wholeNumber_iff by blast
  from res have "\<not> flt q (Fin 1)"
    by (auto simp: addItem_def split: if_splits)
  with k have q: "1 \<le> k"
    by simp
  from res obtain p where p: "getProductById products productId = Some p"
    by (auto simp: addItem_def split: if_splits option.splits)
  let ?n = "fadd (getItemQuantity s productId) q"
  from res p have bounds: "\<not> fgt ?n (ofInt (stock p))" "\<not> fgt ?n MAX_QUANTITY"
    by (auto simp: addItem_def Let_def split: if_splits)
  show ?thesis
  proof (cases "findIndex (\<lambda>item. item_id item = productId) (items s)")
    case None
    then have new: "\<forall>x \<in> set (items s). item_id x \<noteq> productId"
      by (simp add: findIndex_None)
    then have "find (\<lambda>item. item_id item = productId) (items s) = None"
      by (simp add: find_None_iff)
    then have g: "getItemQuantity s productId = Fin (of_int 0)"
      by (simp add: getItemQuantity_def)
    from q have "0 \<le> 0 + k"
      by simp
    from fadd_whole [OF this] bounds(2) have n: "?n = Fin (of_int k)"
      unfolding g k MAX_QUANTITY_def by simp
    from bounds have kb: "k \<le> stock p" "k \<le> 10"
      unfolding n by (simp_all add: fgt_def ofInt_def MAX_QUANTITY_def)
    let ?v = "\<lparr>item_id = pid p, quantity = q, addedAt = now, updatedAt = now,
                item_product = Some \<lparr>s_id = pid p, s_name = name p, s_price = price p,
                  s_images = images p, s_category = category p, s_inStock = inStock p\<rparr>\<rparr>"
    from res p None have s': "items s' = items s @ [?v]"
      by (auto simp: addItem_def Let_def items_saveToStorage split: if_splits)
    have id: "item_id ?v = productId"
      using getProductById_pid [OF p] by simp
    have "line_ok products ?v"
      unfolding line_ok_iff using q kb p id k by simp
    with inv new id show ?thesis
      unfolding s' by (intro cart_inv_append) simp_all
  next
    case (Some i)
    from findIndex_Some [OF Some] have i: "i < length (items s)"
      and idi: "item_id (items s ! i) = productId"
      and f: "find (\<lambda>item. item_id item = productId) (items s) = Some (items s ! i)"
      by simp_all
    from f have g: "getItemQuantity s productId = quantity (items s ! i)"
      by (simp add: getItemQuantity_def)
    from inv i have "line_ok products (items s ! i)"
      by (simp add: cart_inv_def list_all_iff)
    then obtain c where c: "quantity (items s ! i) = Fin (of_int c)" "1 \<le> c" "c \<le> 10"
      unfolding line_ok_iff by blast
    from c(2) q have "0 \<le> c + k"
      by simp
    from fadd_whole [OF this] bounds(2) have n: "?n = Fin (of_int (c + k))"
      unfolding g c(1) k MAX_QUANTITY_def by blast
    from bounds have kb: "c + k \<le> stock p" "c + k \<le> 10"
      unfolding n by (simp_all add: fgt_def ofInt_def MAX_QUANTITY_def)
    let ?v = "(items s ! i)\<lparr>quantity := ?n, updatedAt := now\<rparr>"
    from res p Some have s': "items s' = (items s)[i := ?v]"
      by (auto simp: addItem_def Let_def items_saveToStorage split: if_splits)
    from c(2) q have "1 \<le> c + k"
      by simp
    with kb p idi have "line_ok products ?v"
      unfolding line_ok_iff n by (intro exI [of _ "c + k"]) simp
    with inv i show ?thesis
      unfolding s' by (intro cart_inv_update) simp_all
  qed
qed

lemma removeItem_inv:
  assumes inv: "cart_inv products (items s)"
    and q: "case q of None \<Rightarrow> True | Some n \<Rightarrow> wholeNumber n \<and> fge n (Fin 0)"
  shows "cart_inv products (items (snd (removeItem now productId q s)))"
proof (cases "findIndex (\<lambda>item. item_id item = productId) (items s)")
  case None
  with inv show ?thesis
    by (simp add: removeItem_def)
next
  case (Some i)
  from findIndex_Some [OF Some] have i: "i < length (items s)"
    by simp
  from inv i have ok: "line_ok products (items s ! i)"
    by (simp add: cart_inv_def list_all_iff)
  then obtain c where c: "quantity (items s ! i) = Fin (of_int c)" "1 \<le> c" "c \<le> 10"
    and cs: "case getProductById products (item_id (items s ! i)) of
               None \<Rightarrow> True | Some p \<Rightarrow> c \<le> stock p"
    unfolding line_ok_iff by blast
  show ?thesis
  proof (cases "case q of None \<Rightarrow> True | Some n \<Rightarrow> fge n (quantity (items s ! i))")
    case True
    then have "items (snd (removeItem now productId q s)) =
        take i (items s) @ drop (Suc i) (items s)"
      using Some by (auto simp: removeItem_def Let_def items_saveToStorage split: option.splits)
    with cart_inv_delete [OF inv] show ?thesis
      by simp
  next
    case False
    then obtain n where n: "q = Some n" "\<not> fge n (quantity (items s ! i))"
      by (auto split: option.splits)
    from q n(1) obtain k where k: "n = Fin (of_int k)" and k0: "fge n (Fin 0)"
      unfolding wholeNumber_iff by auto
    from k0 have k0': "0 \<le> k"
      unfolding k by (simp add: fge_Fin)
    from n(2) have kc: "k < c"
      unfolding k c(1) by (simp add: fge_Fin)
    have "fsub (Fin (of_int c)) (Fin (of_int k)) = toDouble (of_int (c - k))"
      by (simp add: fsub_def)
    also have "\<dots> = Fin (of_int (c - k))"
      using kc c(3) k0' by (intro toDouble_exact) simp_all
    finally have d: "fsub (quantity (items s ! i)) n = Fin (of_int (c - k))"
      unfolding c(1) k .
    let ?v = "(items s ! i)\<lparr>quantity := fsub (quantity (items s ! i)) n, updatedAt := now\<rparr>"
    from n Some have s': "items (snd (removeItem now productId q s)) = (items s)[i := ?v]"
      by (simp add: removeItem_def Let_def items_saveToStorage)
    from cs kc k0' c(3) have "line_ok products ?v"
      unfolding line_ok_iff d
      by (intro exI [of _ "c - k"]) (auto split: option.splits)
    with inv i show ?thesis
      unfolding s' by (intro cart_inv_update) simp_all
  qed
qed

lemma updateItemQuantity_inv:
  assumes inv: "cart_inv products (items s)"
    and whole: "wholeNumber q"
    and res: "updateItemQuantity products now productId q s = (Inr b, s')"
  shows "cart_inv products (items s')"
proof -
  from whole obtain k where k: "q = Fin (of_int k)"
    unfolding wholeNumber_iff by blast
  from res have "\<not> flt q (Fin 0)" "\<not> fgt q MAX_QUANTITY"
    by (auto simp: updateItemQuantity_def split: if_splits)
  then have q: "0 \<le> k" "k \<le> 10"
    unfolding k by (simp_all add: fgt_def MAX_QUANTITY_def)
  from res obtain i where Some: "findIndex (\<lambda>item. item_id item = productId) (items s) = Some i"
    by (auto simp: updateItemQuantity_def split: if_splits option.splits)
  from findIndex_Some [OF Some] have i: "i < length (items s)"
      and idi: "item_id (items s ! i) = productId"
    by simp_all
  from res Some have "case getProductById products productId of
                        None \<Rightarrow> True | Some p \<Rightarrow> \<not> fgt q (ofInt (stock p))"
    by (auto simp: updateItemQuantity_def split: if_splits option.splits)
  then have st: "case getProductById products productId of
                   None \<Rightarrow> True | Some p \<Rightarrow> k \<le> stock p"
    unfolding k by (auto simp: fgt_def ofInt_def split: option.splits)
  have z: "feq q (Fin 0) = (k = 0)"
    unfolding k by simp
  show ?thesis
  proof (cases "k = 0")
    case True
    with z have "feq q (Fin 0)"
      by simp
    with res Some have "s' = snd (removeItem now productId None s)"
      by (auto simp: updateItemQuantity_def split: if_splits option.splits prod.splits)
    with removeItem_inv [OF inv, of None now productId] show ?thesis
      by simp
  next
    case False
    with z have nz: "\<not> feq q (Fin 0)"
      by simp
    let ?v = "(items s ! i)\<lparr>quantity := q, updatedAt := now\<rparr>"
    from res Some nz have s': "items s' = (items s)[i := ?v]"
      by (auto simp: updateItemQuantity_def items_saveToStorage split: if_splits option.splits)
    from False q st idi have "line_ok products ?v"
      unfolding line_ok_iff k by (intro exI [of _ k]) (auto split: option.splits)
    with inv i show ?thesis
      unfolding s' by (intro cart_inv_update) simp_all
  qed
qed

lemma clampToStock_line_ok:
  assumes "line_ok products it" and "productAvailable products it"
  shows "clampToStock products now it = it"
proof -
  from assms(1) obtain k where k: "quantity it = Fin (of_int k)"
    and st: "case getProductById products (item_id it) of None \<Rightarrow> True | Some p \<Rightarrow> k \<le> stock p"
    unfolding line_ok_iff by blast
  from st assms(2) have "\<not> fgt (quantity it) (ofInt (liveStock products it))"
    unfolding k
    by (auto simp: fgt_def ofInt_def liveStock_def productAvailable_def split: option.splits)
  then show ?thesis
    by (simp add: clampToStock_def)
qed

lemma validateCart_inv:
  assumes inv: "cart_inv products (items s)"
  shows "cart_inv products (items (snd (validateCart products now s)))"
proof -
  let ?kept = "filter (productAvailable products) (items s)"
  from inv have d: "distinct (map item_id (items s))"
    and a: "\<forall>x \<in> set (items s). line_ok products x"
    by (simp_all add: cart_inv_def list_all_iff)
  have "map (clampToStock products now) ?kept = map (\<lambda>it. it) ?kept"
    using a by (intro map_cong) (simp_all add: clampToStock_line_ok)
  then have e: "map (clampToStock products now) ?kept = ?kept"
    by simp
  from d have k: "distinct (map item_id ?kept)"
    by (rule distinct_map_filter)
  with a show ?thesis
    unfolding validateCart_items e by (simp add: cart_inv_def list_all_iff)
qed

lemma validateCart_withinStock:
  assumes "it \<in> set (items (snd (validateCart products now s)))"
  shows "withinStock products it"
proof -
  from assms obtain it0 where it: "it = clampToStock products now it0"
    and av: "productAvailable products it0"
    unfolding validateCart_items by auto
  from av have av': "productAvailable products it"
    unfolding it by (simp add: productAvailable_def clampToStock_id)
  have ls: "liveStock products it = liveStock products it0"
    unfolding it by (simp add: liveStock_def clampToStock_id)
  have "quantity it = NotANumber \<or> fge (ofInt (liveStock products it)) (quantity it)"
  proof (cases "fgt (quantity it0) (ofInt (liveStock products it0))")
    case True
    then have "quantity it = ofInt (liveStock products it0)"
      unfolding it by (simp add: clampToStock_def)
    then show ?thesis
      unfolding ls by (simp add: ofInt_def fge_Fin)
  next
    case False
    then have "quantity it = quantity it0"
      unfolding it by (simp add: clampToStock_def)
    with False not_fgt_Fin [of "quantity it0" "of_int (liveStock products it0)"] show ?thesis
      unfolding ls by (simp add: ofInt_def)
  qed
  with av' show ?thesis
    by (simp add: withinStock_def)
qed

lemma mergeLoop_inv:
  assumes "cart_inv products its" and "\<forall>x \<in> set newItems. line_ok products x"
  shows "cart_inv products (mergeLoop now newItems its)"
  using assms
proof (induction newItems arbitrary: its)
  case Nil
  then show ?case by simp
next
  case (Cons newItem rest)
  from Cons.prems have ok: "line_ok products newItem" by simp
  have step: "cart_inv products
      (case findIndex (\<lambda>item. item_id item = item_id newItem) its of
         Some i \<Rightarrow> its[i := (its ! i)\<lparr>quantity := fmax (quantity (its ! i)) (quantity newItem),
                                       updatedAt := now\<rparr>]
       | None \<Rightarrow> its @ [newItem\<lparr>addedAt := now, updatedAt := now\<rparr>])"
  proof (cases "findIndex (\<lambda>item. item_id item = item_id newItem) its")
    case None
    then have new: "\<forall>x \<in> set its. item_id x \<noteq> item_id newItem"
      by (simp add: findIndex_None)
    from ok have "line_ok products (newItem\<lparr>addedAt := now, updatedAt := now\<rparr>)"
      by (auto simp: line_ok_def split: option.splits)
    with Cons.prems(1) new show ?thesis
      unfolding None by (simp only: option.case) (intro cart_inv_append, simp_all)
  next
    case (Some i)
    from findIndex_Some [OF Some] have i: "i < length its"
      and idi: "item_id (its ! i) = item_id newItem"
      by simp_all
    from Cons.prems(1) i have "line_ok products (its ! i)"
      by (simp add: cart_inv_def list_all_iff)
    then obtain c where c: "quantity (its ! i) = Fin (of_int c)" "1 \<le> c" "c \<le> 10"
      and cs: "case getProductById products (item_id (its ! i)) of
                 None \<Rightarrow> True | Some p \<Rightarrow> c \<le> stock p"
      unfolding line_ok_iff by blast
    from ok obtain k where k: "quantity newItem = Fin (of_int k)" "1 \<le> k" "k \<le> 10"
      and ks: "case getProductById products (item_id newItem) of
                 None \<Rightarrow> True | Some p \<Rightarrow> k \<le> stock p"
      unfolding line_ok_iff by blast
    have m: "fmax (quantity (its ! i)) (quantity newItem) = Fin (of_int (max c k))"
      unfolding c(1) k(1) by (simp add: max_def)
    from c k cs ks idi have "line_ok products
        ((its ! i)\<lparr>quantity := fmax (quantity (its ! i)) (quantity newItem), updatedAt := now\<rparr>)"
      unfolding line_ok_iff m
      by (intro exI [of _ "max c k"]) (auto simp: max_def split: option.splits)
    with Cons.prems(1) i show ?thesis
      unfolding Some by (simp only: option.case) (intro cart_inv_update, simp_all)
  qed
  from Cons.prems have "\<forall>x \<in> set rest. line_ok products x" by simp
  from Cons.IH [OF step this] show ?case by simp
qed

lemma mergeLoop_distinct:
  assumes "distinct (map item_id its)"
  shows "distinct (map item_id (mergeLoop now newItems its))"
  using assms
proof (induction newItems arbitrary: its)
  case Nil
  then show ?case by simp
next
  case (Cons newItem rest)
  have "distinct (map item_id
      (case findIndex (\<lambda>item. item_id item = item_id newItem) its of
         Some i \<Rightarrow> its[i := (its ! i)\<lparr>quantity := fmax (quantity (its ! i)) (quantity newItem),
                                       updatedAt := now\<rparr>]
       | None \<Rightarrow> its @ [newItem\<lparr>addedAt := now, updatedAt := now\<rparr>]))"
  proof (cases "findIndex (\<lambda>item. item_id item = item_id newItem) its")
    case None
    then have "\<forall>x \<in> set its. item_id x \<noteq> item_id newItem"
      by (simp add: findIndex_None)
    with Cons.prems show ?thesis
      unfolding None by auto
  next
    case (Some i)
    from findIndex_Some [OF Some] have i: "i < length its" by simp
    then have "map item_id (its[i := (its ! i)\<lparr>quantity := fmax (quantity (its ! i)) (quantity newItem),
                                       updatedAt := now\<rparr>]) = map item_id its"
      by (simp add: map_update list_update_same_conv)
    with Cons.prems show ?thesis
      unfolding Some by simp
  qed
  from Cons.IH [OF this] show ?case by simp
qed

lemma addItem_failure_unchanged:
  "fst (addItem products now productId q s) = Inl e \<Longrightarrow>
   snd (addItem products now productId q s) = s"
  by (auto simp: addItem_def Let_def split: option.splits if_splits)

lemma updateItemQuantity_failure_unchanged:
  "fst (updateItemQuantity products now productId q s) = Inl e \<Longrightarrow>
   snd (updateItemQuantity products now productId q s) = s"
  by (auto simp: updateItemQuantity_def split: option.splits if_splits prod.splits)

lemma addItem_inv_any:
  assumes "cart_inv products (items s)" and "wholeNumber q"
  shows "cart_inv products (items (snd (addItem products now productId q s)))"
proof (cases "fst (addItem products now productId q s)")
  case (Inl e)
  with assms(1) show ?thesis
    by (simp add: addItem_failure_unchanged)
next
  case (Inr b)
  then have "addItem products now productId q s = (Inr b, snd (addItem products now productId q s))"
    by (simp add: prod_eq_iff)
  from addItem_inv [OF assms this] show ?thesis .
qed

lemma updateItemQuantity_inv_any:
  assumes "cart_inv products (items s)" and "wholeNumber q"
  shows "cart_inv products (items (snd (updateItemQuantity products now productId q s)))"
proof (cases "fst (updateItemQuantity products now productId q s)")
  case (Inl e)
  with assms(1) show ?thesis
    by (simp add: updateItemQuantity_failure_unchanged)
next
  case (Inr b)
  then have "updateItemQuantity products now productId q s =
      (Inr b, snd (updateItemQuantity products now productId q s))"
    by (simp add: prod_eq_iff)
  from updateItemQuantity_inv [OF assms this] show ?thesis .
qed

lemma mergeCart_inv:
  assumes "cart_inv products (items s)" and "list_all (line_ok products) newItems"
  shows "cart_inv products (items (mergeCart now (Some newItems) s))"
  using mergeLoop_inv [of products "items s" newItems now] assms
  by (simp add: mergeCart_def items_saveToStorage list_all_iff)

lemma mergeCart_distinct:
  assumes "cart_inv products (items s)"
  shows "distinct (map item_id (items (mergeCart now (Some newItems) s)))"
  using mergeLoop_distinct [of "items s" now newItems] assms
  by (simp add: mergeCart_def items_saveToStorage cart_inv_def)

lemma importCart_items:
  "data_items d = Some its \<Longrightarrow> items (snd (importCart now (Some d) s)) = its"
  by (simp add: importCart_def items_saveToStorage)

lemma loadFromStorage_items:
  "items (loadFromStorage now s) = [] \<or>
   (\<exists>savedAt. storage s = Some (CartData (items (loadFromStorage now s)) savedAt))"
  by (auto simp: loadFromStorage_def Let_def items_saveToStorage
      split: option.splits stored.splits)

text \<open>
  C3 (as amended). A cart that satisfies the invariant still satisfies it after
  \<open>addItem\<close> and \<open>updateItemQuantity\<close> called with an integer quantity (whether they
  succeed or fail), after \<open>removeItem\<close> with no quantity or an integer quantity that is
  not negative, after \<open>validateCart\<close>, and after \<open>mergeCart\<close> when every incoming line is
  within the bounds; \<open>mergeCart\<close> keeps the product ids unique whatever comes in. After
  \<open>validateCart\<close> on any cart at all, every line is of an available product and its
  quantity, when it is a number, is at most the live stock. \<open>importCart\<close> installs the
  lines of a well-shaped blob as they are, and a load from storage installs the stored
  lines or none: after them the invariant holds when the incoming lines satisfy it.
\<close>

theorem cart_invariant_preserved:
  assumes "cart_inv products (items s)"
  shows "(wholeNumber q \<longrightarrow>
            cart_inv products (items (snd (addItem products now productId q s)))) \<and>
         (wholeNumber q \<longrightarrow>
            cart_inv products (items (snd (updateItemQuantity products now productId q s)))) \<and>
         ((case r of None \<Rightarrow> True | Some n \<Rightarrow> wholeNumber n \<and> fge n (Fin 0)) \<longrightarrow>
            cart_inv products (items (snd (removeItem now productId r s)))) \<and>
         cart_inv products (items (snd (validateCart products now s))) \<and>
         (list_all (line_ok products) newItems \<longrightarrow>
            cart_inv products (items (mergeCart now (Some newItems) s))) \<and>
         distinct (map item_id (items (mergeCart now (Some newItems) s))) \<and>
         (\<forall>it \<in> set (items (snd (validateCart products now s1))). withinStock products it) \<and>
         (data_items d = Some its \<longrightarrow>
            items (snd (importCart now (Some d) s0)) = its \<and>
            cart_inv products (items (snd (importCart now (Some d) s0))) = cart_inv products its) \<and>
         (storage s0 = Some (CartData its savedAt) \<and> cart_inv products its \<longrightarrow>
            cart_inv products (items (loadFromStorage now s0)))"
proof -
  have imp: "items (snd (importCart now (Some d) s0)) = its \<and>
      cart_inv products (items (snd (importCart now (Some d) s0))) = cart_inv products its"
    if "data_items d = Some its"
    using importCart_items [OF that] by simp
  have load: "cart_inv products (items (loadFromStorage now s0))"
    if "storage s0 = Some (CartData its savedAt) \<and> cart_inv products its"
    using that loadFromStorage_items [of now s0] by (auto simp: cart_inv_def)
  have within: "\<forall>it \<in> set (items (snd (validateCart products now s1))). withinStock products it"
    by (blast intro: validateCart_withinStock)
  from addItem_inv_any [OF assms] updateItemQuantity_inv_any [OF assms]
    removeItem_inv [OF assms] validateCart_inv [OF assms]
    mergeCart_inv [OF assms] mergeCart_distinct [OF assms] imp load within
  show ?thesis
    by blast
qed

text \<open>
  One run of each operation on a cart holding two units of \<open>phone\<close>; the merge is the
  example of the specification, local \<open>p1: 2\<close> with incoming \<open>p1: 5, p2: 1\<close>. The cart
  \<open>staleCart\<close> holds nine units of \<open>phone\<close>, of which five are in stock, a line of an
  unknown product and a line of a sold-out product: validation keeps the first line
  with five units.
\<close>

theorem cart_invariant_preserved_witness:
  "cart_inv [phone, hub, soldOut]
     (items (snd (addItem [phone, hub, soldOut] 100 ''p1'' (Fin 2) (cartOf [line ''p1'' 2])))) \<and>
   map (\<lambda>it. (item_id it, quantity it))
     (items (snd (addItem [phone, hub, soldOut] 100 ''p1'' (Fin 2) (cartOf [line ''p1'' 2])))) =
     [(''p1'', Fin 4)] \<and>
   cart_inv [phone, hub, soldOut]
     (items (snd (updateItemQuantity [phone, hub, soldOut] 100 ''p1'' (Fin 2)
        (cartOf [line ''p1'' 2])))) \<and>
   cart_inv [phone, hub, soldOut]
     (items (snd (removeItem 100 ''p1'' (Some (Fin 1)) (cartOf [line ''p1'' 2])))) \<and>
   map (\<lambda>it. (item_id it, quantity it))
     (items (snd (removeItem 100 ''p1'' (Some (Fin 1)) (cartOf [line ''p1'' 2])))) =
     [(''p1'', Fin 1)] \<and>
   cart_inv [phone, hub, soldOut]
     (items (snd (validateCart [phone, hub, soldOut] 100 (cartOf [line ''p1'' 2])))) \<and>
   cart_inv [phone, hub, soldOut]
     (items (mergeCart 100 (Some [line ''p1'' 5, line ''p2'' 1]) (cartOf [line ''p1'' 2]))) \<and>
   map (\<lambda>it. (item_id it, quantity it))
     (items (mergeCart 100 (Some [line ''p1'' 5, line ''p2'' 1]) (cartOf [line ''p1'' 2]))) =
     [(''p1'', Fin 5), (''p2'', Fin 1)] \<and>
   map (\<lambda>it. (item_id it, quantity it)) (items staleCart) =
     [(''p1'', Fin 9), (''p9'', Fin 1), (''p3'', Fin 2)] \<and>
   map (\<lambda>it. (item_id it, quantity it))
     (items (snd (validateCart [phone, hub, soldOut] 100 staleCart))) = [(''p1'', Fin 5)] \<and>
   list_all (withinStock [phone, hub, soldOut])
     (items (snd (validateCart [phone, hub, soldOut] 100 staleCart))) \<and>
   items (snd (importCart 100
     (Some \<lparr>data_items = Some [line ''p1'' 4], exportedAt = None, version = None\<rparr>)
     expiredStore)) = [line ''p1'' 4] \<and>
   cart_inv [phone, hub, soldOut] (items (loadFromStorage 100 expiredStore))"
proof -
  let ?P = "[phone, hub, soldOut]"
  let ?d = "\<lparr>data_items = Some [line ''p1'' 4], exportedAt = None, version = None\<rparr>"
  have h: "cart_inv ?P (items (cartOf [line ''p1'' 2]))"
    by code_simp
  have w: "wholeNumber (Fin 2)"
    by code_simp
  have r: "case Some (Fin 1) of None \<Rightarrow> True | Some n \<Rightarrow> wholeNumber n \<and> fge n (Fin 0)"
    by code_simp
  have inc: "list_all (line_ok ?P) [line ''p1'' 5, line ''p2'' 1]"
    by code_simp
  have d: "data_items ?d = Some [line ''p1'' 4]"
    by simp
  have st: "storage expiredStore = Some (CartData [line ''p1'' 4] (Some 0)) \<and>
      cart_inv ?P [line ''p1'' 4]"
    by code_simp
  have a: "map (\<lambda>it. (item_id it, quantity it))
     (items (snd (addItem ?P 100 ''p1'' (Fin 2) (cartOf [line ''p1'' 2])))) = [(''p1'', Fin 4)]"
    by code_simp
  have e: "map (\<lambda>it. (item_id it, quantity it))
     (items (snd (removeItem 100 ''p1'' (Some (Fin 1)) (cartOf [line ''p1'' 2])))) =
     [(''p1'', Fin 1)]"
    by code_simp
  have m: "map (\<lambda>it. (item_id it, quantity it))
     (items (mergeCart 100 (Some [line ''p1'' 5, line ''p2'' 1]) (cartOf [line ''p1'' 2]))) =
     [(''p1'', Fin 5), (''p2'', Fin 1)]"
    by code_simp
  have c: "map (\<lambda>it. (item_id it, quantity it)) (items staleCart) =
     [(''p1'', Fin 9), (''p9'', Fin 1), (''p3'', Fin 2)]"
    by code_simp
  have v: "map (\<lambda>it. (item_id it, quantity it))
     (items (snd (validateCart ?P 100 staleCart))) = [(''p1'', Fin 5)]"
    by code_simp
  note inst = cart_invariant_preserved [OF h, of "Fin 2" 100 "''p1''" "Some (Fin 1)"
      "[line ''p1'' 5, line ''p2'' 1]" staleCart ?d "[line ''p1'' 4]" expiredStore "Some 0"]
  from inst have "\<forall>it \<in> set (items (snd (validateCart ?P 100 staleCart))). withinStock ?P it"
    by blast
  then have l: "list_all (withinStock ?P) (items (snd (validateCart ?P 100 staleCart)))"
    by (simp only: list_all_iff)
  from inst w r inc d st a e m c v l show ?thesis
    by blast
qed

text \<open>
  C3 as stated fails: \<open>addItem\<close> with the quantity 1.5 on a line of 2 succeeds and
  stores 3.5; \<open>importCart\<close> and \<open>mergeCart\<close> accept a quantity of 11 on a cart that
  satisfied the invariant; a load from storage accepts two lines for one product; and
  \<open>removeItem\<close> with the quantity -9 raises a line from 2 to 11.
\<close>

theorem cart_invariant_import_merge_counterexample:
  "cart_inv [phone, hub] (items (cartOf [line ''p1'' 2])) \<and>
   fst (addItem [phone, hub] 200 ''p1'' (Fin (3 / 2)) (cartOf [line ''p1'' 2])) = Inr True \<and>
   map quantity (items (snd (addItem [phone, hub] 200 ''p1'' (Fin (3 / 2))
     (cartOf [line ''p1'' 2])))) = [Fin (7 / 2)] \<and>
   \<not> cart_inv [phone, hub] (items (snd (addItem [phone, hub] 200 ''p1'' (Fin (3 / 2))
     (cartOf [line ''p1'' 2])))) \<and>
   map quantity (items (snd (importCart 200
     (Some \<lparr>data_items = Some [line ''p1'' 11], exportedAt = None, version = None\<rparr>)
     (cartOf [line ''p1'' 2])))) = [Fin 11] \<and>
   \<not> cart_inv [phone, hub] (items (snd (importCart 200
     (Some \<lparr>data_items = Some [line ''p1'' 11], exportedAt = None, version = None\<rparr>)
     (cartOf [line ''p1'' 2])))) \<and>
   map quantity (items (mergeCart 200 (Some [line ''p1'' 11]) (cartOf [line ''p1'' 2]))) =
     [Fin 11] \<and>
   \<not> cart_inv [phone, hub] (items (mergeCart 200 (Some [line ''p1'' 11]) (cartOf [line ''p1'' 2]))) \<and>
   map item_id (items (loadFromStorage 100 duplicateStore)) = [''p1'', ''p1''] \<and>
   \<not> cart_inv [phone, hub] (items (loadFromStorage 100 duplicateStore)) \<and>
   map quantity (items (snd (removeItem 200 ''p1'' (Some (Fin (- 9))) (cartOf [line ''p1'' 2])))) =
     [Fin 11] \<and>
   \<not> cart_inv [phone, hub]
     (items (snd (removeItem 200 ''p1'' (Some (Fin (- 9))) (cartOf [line ''p1'' 2]))))"
  by code_simp

end
